theory Spec2Isabelle
  imports Main "HOL-Library.AList"
begin

section \<open>JavaScript values and the runtime\<close>

text \<open>
  The program is two JavaScript classes, \<^verbatim>\<open>Observable\<close> and \<^verbatim>\<open>Config\<close>
  (\<^verbatim>\<open>src/Config.js\<close>). A JavaScript value is a primitive or an object. Every object
  and array carries the reference it was allocated at, so that two objects with the same
  contents, allocated at different times, are different values. No operation of the two
  classes changes an object in place once it is stored (every merge builds new objects),
  so a value is its reference together with its contents. Numbers are the integers and
  \<open>NaN\<close>.
\<close>

type_synonym ref = nat

datatype jsval =
    JUndefined
  | JNull
  | JBool bool
  | JNum int
  | JNaN
  | JStr string
  | JArr ref "jsval list"
  | JObj ref "(string \<times> jsval) list"

text \<open>\<^verbatim>\<open>a !== b\<close>: identity of references, equality of primitives, and \<open>NaN\<close> differs
  from everything, itself included.\<close>

fun strict_neq :: "jsval \<Rightarrow> jsval \<Rightarrow> bool" where
  "strict_neq JNaN b = True"
| "strict_neq a b = (a \<noteq> b)"

text \<open>A listener is a function; functions are compared by reference, so a listener is the
  identity of its function. Calling it is recorded in the runtime, in call order. Listeners
  are taken to return normally and not to call back into the object that notifies them.\<close>

type_synonym listener = nat

datatype validation_error = ValidationError "string list"

text \<open>The options of \<^verbatim>\<open>schema.validate\<close>; an option that the caller does not pass is
  \<open>None\<close>. Every call of \<^verbatim>\<open>validate\<close> is recorded in the runtime as well, in call order:
  the candidate, the options, and the \<^verbatim>\<open>{ error, value }\<close> it returned.\<close>

record validate_opts =
  abortEarly :: "bool option"
  allowUnknown :: "bool option"

record validation =
  v_candidate :: jsval
  v_options :: validate_opts
  v_error :: "validation_error option"
  v_value :: jsval

record runtime =
  next_ref :: ref
  calls :: "(listener \<times> jsval) list"
  validations :: "validation list"

datatype js_error =
    TypeError
  | JsError string
  | Validation validation_error

datatype 'a completion = Return 'a | Throw js_error

text \<open>The object literal \<^verbatim>\<open>{}\<close>.\<close>

definition new_object :: "runtime \<Rightarrow> jsval \<times> runtime" where
  "new_object w = (JObj (next_ref w) [], w\<lparr>next_ref := Suc (next_ref w)\<rparr>)"

section \<open>The collaborators: Joi, lodash and deepmerge\<close>

text \<open>
  The three libraries are not part of the repository. A Joi schema is its \<^verbatim>\<open>validate\<close>
  method: from the candidate and the options to \<^verbatim>\<open>{ error, value }\<close>; it may allocate.
  \<^verbatim>\<open>deepMerge.all\<close>, \<^verbatim>\<open>_.set\<close> and \<^verbatim>\<open>_.get\<close> are parameters of every operation. The
  collaborators are taken to return normally.
\<close>

type_synonym joi =
  "jsval \<Rightarrow> validate_opts \<Rightarrow> ref \<Rightarrow> (validation_error option \<times> jsval) \<times> ref"

text \<open>What a caller may pass where a schema is expected: a falsy value (\<^verbatim>\<open>null\<close>,
  \<^verbatim>\<open>undefined\<close>), a truthy value that is not a Joi schema, or a Joi schema.\<close>

datatype schema_val = Falsy | NotJoi | Joi joi

fun schema_truthy :: "schema_val \<Rightarrow> bool" where
  "schema_truthy Falsy = False"
| "schema_truthy NotJoi = True"
| "schema_truthy (Joi v) = True"

fun Joi_isSchema :: "schema_val \<Rightarrow> bool" where
  "Joi_isSchema (Joi v) = True"
| "Joi_isSchema s = False"

record libs =
  deepMerge_all :: "jsval list \<Rightarrow> ref \<Rightarrow> jsval \<times> ref"
  lodash_set :: "jsval \<Rightarrow> string \<Rightarrow> jsval \<Rightarrow> ref \<Rightarrow> jsval \<times> ref"
  lodash_get :: "jsval \<Rightarrow> string \<Rightarrow> jsval"

text \<open>The runtime after a call of \<^verbatim>\<open>validate\<close> that returned \<open>(error, value)\<close> and left
  the next free reference at \<open>r\<close>.\<close>

definition validated ::
  "jsval \<Rightarrow> validate_opts \<Rightarrow> validation_error option \<times> jsval \<Rightarrow> ref \<Rightarrow> runtime \<Rightarrow> runtime" where
  "validated candidate opts result r w =
     w\<lparr>next_ref := r,
       validations := validations w @
         [\<lparr>v_candidate = candidate, v_options = opts,
           v_error = fst result, v_value = snd result\<rparr>]\<rparr>"

section \<open>Observable\<close>

record Observable =
  oid :: ref
  val :: jsval
  listeners :: "listener list"

text \<open>\<^verbatim>\<open>new Observable(value)\<close>\<close>

definition new_Observable :: "jsval \<Rightarrow> runtime \<Rightarrow> Observable \<times> runtime" where
  "new_Observable v w =
     (\<lparr>oid = next_ref w, val = v, listeners = []\<rparr>, w\<lparr>next_ref := Suc (next_ref w)\<rparr>)"

text \<open>\<^verbatim>\<open>for (const listener of this.#listeners) listener(val)\<close>\<close>

fun call_listeners :: "listener list \<Rightarrow> jsval \<Rightarrow> runtime \<Rightarrow> runtime" where
  "call_listeners [] v w = w"
| "call_listeners (l # ls) v w = call_listeners ls v (w\<lparr>calls := calls w @ [(l, v)]\<rparr>)"

definition Observable_set :: "jsval \<Rightarrow> Observable \<Rightarrow> runtime \<Rightarrow> Observable \<times> runtime" where
  "Observable_set v ob w =
     (if strict_neq (val ob) v
      then (ob\<lparr>val := v\<rparr>, call_listeners (listeners ob) v w)
      else (ob, w))"

definition Observable_get :: "Observable \<Rightarrow> jsval" where
  "Observable_get ob = val ob"

text \<open>\<^verbatim>\<open>subscribe\<close> returns a closure over \<^verbatim>\<open>this\<close> and \<^verbatim>\<open>listener\<close>; the closure is
  those two. Calling it filters the listeners of the Observable it was made for.\<close>

datatype unsubscriber = Unsubscriber ref listener

definition Observable_subscribe :: "listener \<Rightarrow> Observable \<Rightarrow> Observable \<times> unsubscriber" where
  "Observable_subscribe listener ob =
     (ob\<lparr>listeners := listeners ob @ [listener]\<rparr>, Unsubscriber (oid ob) listener)"

fun call_unsubscriber :: "unsubscriber \<Rightarrow> Observable \<Rightarrow> Observable" where
  "call_unsubscriber (Unsubscriber i listener) ob =
     (if oid ob = i
      then ob\<lparr>listeners := filter (\<lambda>l. l \<noteq> listener) (listeners ob)\<rparr>
      else ob)"

section \<open>Config\<close>

record Config =
  config :: jsval
  schema :: schema_val
  observable :: Observable
  observables :: "string \<rightharpoonup> Observable"

text \<open>\<^verbatim>\<open>this.#observables\<close> is a plain object, so \<^verbatim>\<open>this.#observables[key]\<close> finds the
  Observable stored at the key, or else what the object inherits from \<^verbatim>\<open>Object.prototype\<close>
  at that name, a function or object that is truthy and is no Observable, or else
  \<^verbatim>\<open>undefined\<close>.\<close>

definition Object_prototype_members :: "string list" where
  "Object_prototype_members =
     [''constructor'', ''__defineGetter__'', ''__defineSetter__'', ''hasOwnProperty'',
      ''__lookupGetter__'', ''__lookupSetter__'', ''isPrototypeOf'', ''propertyIsEnumerable'',
      ''toString'', ''valueOf'', ''__proto__'', ''toLocaleString'']"

datatype observables_entry = Own Observable | Inherited | Missing

definition observables_at :: "(string \<rightharpoonup> Observable) \<Rightarrow> string \<Rightarrow> observables_entry" where
  "observables_at obs key =
     (case obs key of
        Some ob \<Rightarrow> Own ob
      | None \<Rightarrow> if key \<in> set Object_prototype_members then Inherited else Missing)"

text \<open>The private fields before the constructor has assigned them. The constructor assigns
  \<open>schema\<close>, and \<^verbatim>\<open>_initializeConfig\<close> assigns the other three before it returns.\<close>

definition uninitialised :: Config where
  "uninitialised =
     \<lparr>config = JUndefined, schema = Falsy,
      observable = \<lparr>oid = 0, val = JUndefined, listeners = []\<rparr>,
      observables = Map.empty\<rparr>"

record SetOptions =
  set_override :: bool
  set_value :: jsval
  set_key :: "string option"
  set_onError :: "(validation_error \<Rightarrow> bool) option"

record SubscribeOptions =
  sub_onChange :: "listener option"
  sub_key :: "string option"

text \<open>\<^verbatim>\<open>if (key)\<close>: \<^verbatim>\<open>null\<close> and the empty string are falsy; the result is the
  key when it is truthy.\<close>

fun truthy_key :: "string option \<Rightarrow> string option" where
  "truthy_key None = None"
| "truthy_key (Some k) = (if k = [] then None else Some k)"

definition Config_validateJoi :: "schema_val \<Rightarrow> unit completion" where
  "Config_validateJoi s =
     (if schema_truthy s \<and> \<not> Joi_isSchema s
      then Throw (JsError ''must pass Joi type schema'')
      else Return ())"

text \<open>\<^verbatim>\<open>_merge(newValue, onError = false)\<close>. \<^verbatim>\<open>this.#schema.validate\<close> on a schema that
  is not a Joi schema is a \<^verbatim>\<open>TypeError\<close>.\<close>

definition Config_merge ::
  "libs \<Rightarrow> jsval \<Rightarrow> (validation_error \<Rightarrow> bool) option \<Rightarrow> Config \<Rightarrow> runtime
   \<Rightarrow> unit completion \<times> Config \<times> runtime" where
  "Config_merge L newValue onError this w =
     (let (merged, r1) = deepMerge_all L [config this, newValue] (next_ref w) in
      case schema this of
        Joi validate \<Rightarrow>
          (let ((error, value), r2) =
                 validate merged \<lparr>abortEarly = Some False, allowUnknown = None\<rparr> r1;
               w2 = validated merged \<lparr>abortEarly = Some False, allowUnknown = None\<rparr>
                      (error, value) r2 w in
           case error of
             None \<Rightarrow> (Return (), this\<lparr>config := value\<rparr>, w2)
           | Some err \<Rightarrow>
               (case onError of
                  Some handler \<Rightarrow>
                    if handler err
                    then
                      (let ((error2, fallbackValue), r3) =
                             validate merged \<lparr>abortEarly = Some False, allowUnknown = Some True\<rparr> r2;
                           w3 = validated merged \<lparr>abortEarly = Some False, allowUnknown = Some True\<rparr>
                                  (error2, fallbackValue) r3 w2
                       in (Return (), this\<lparr>config := fallbackValue\<rparr>, w3))
                    else (Return (), this, w2)
                | None \<Rightarrow> (Throw (Validation err), this, w2)))
      | _ \<Rightarrow> (Throw TypeError, this, w\<lparr>next_ref := r1\<rparr>))"

text \<open>\<^verbatim>\<open>_initializeConfig(config = {})\<close>\<close>

definition Config_initializeConfig ::
  "libs \<Rightarrow> jsval \<Rightarrow> Config \<Rightarrow> runtime \<Rightarrow> unit completion \<times> Config \<times> runtime" where
  "Config_initializeConfig L config_arg this w =
     (let (cfg, w1) = (if config_arg = JUndefined then new_object w else (config_arg, w));
          (empty, w2) = new_object w1
      in case Config_merge L cfg None (this\<lparr>config := empty\<rparr>) w2 of
           (Throw e, this2, w3) \<Rightarrow> (Throw e, this2, w3)
         | (Return u, this2, w3) \<Rightarrow>
             (let (ob, w4) = new_Observable (config this2) w3
              in (Return (), this2\<lparr>observables := Map.empty, observable := ob\<rparr>, w4)))"

text \<open>\<^verbatim>\<open>constructor(schema = null, config = {})\<close>\<close>

definition Config_constructor ::
  "libs \<Rightarrow> schema_val \<Rightarrow> jsval \<Rightarrow> runtime \<Rightarrow> Config completion \<times> runtime" where
  "Config_constructor L schema_arg config_arg w =
     (let (cfg, w0) = (if config_arg = JUndefined then new_object w else (config_arg, w))
      in case (if schema_truthy schema_arg then Config_validateJoi schema_arg else Return ()) of
           Throw e \<Rightarrow> (Throw e, w0)
         | Return u \<Rightarrow>
             (case Config_initializeConfig L cfg (uninitialised\<lparr>schema := schema_arg\<rparr>) w0 of
                (Throw e, this, w1) \<Rightarrow> (Throw e, w1)
              | (Return u, this, w1) \<Rightarrow> (Return this, w1)))"

text \<open>\<^verbatim>\<open>setSchema(newSchema, config = this.#config)\<close>\<close>

definition Config_setSchema ::
  "libs \<Rightarrow> schema_val \<Rightarrow> jsval \<Rightarrow> Config \<Rightarrow> runtime \<Rightarrow> unit completion \<times> Config \<times> runtime" where
  "Config_setSchema L newSchema config_arg this w =
     (let cfg = (if config_arg = JUndefined then config this else config_arg)
      in case Config_validateJoi newSchema of
           Throw e \<Rightarrow> (Throw e, this, w)
         | Return u \<Rightarrow>
             (case newSchema of
                Joi validate \<Rightarrow>
                  (let ((error, value), r1) =
                         validate cfg \<lparr>abortEarly = Some False, allowUnknown = None\<rparr> (next_ref w);
                       w0 = validated cfg \<lparr>abortEarly = Some False, allowUnknown = None\<rparr>
                              (error, value) r1 w in
                   case error of
                     Some err \<Rightarrow> (Throw (Validation err), this, w0)
                   | None \<Rightarrow>
                       (let (empty, w1) = new_object w0
                        in Config_merge L cfg None (this\<lparr>config := empty, schema := newSchema\<rparr>) w1))
              | _ \<Rightarrow> (Throw TypeError, this, w)))"

text \<open>\<^verbatim>\<open>get(key)\<close>\<close>

definition Config_get :: "libs \<Rightarrow> string option \<Rightarrow> Config \<Rightarrow> jsval" where
  "Config_get L key this =
     (case truthy_key key of
        None \<Rightarrow> config this
      | Some k \<Rightarrow> lodash_get L (config this) k)"

text \<open>\<^verbatim>\<open>subscribe({ onChange, key = null })\<close>; the result \<open>None\<close> is \<^verbatim>\<open>undefined\<close>. At a
  key where \<^verbatim>\<open>this.#observables[key]\<close> is inherited, no Observable is created and the call
  of its \<^verbatim>\<open>subscribe\<close> is a \<^verbatim>\<open>TypeError\<close>.\<close>

definition Config_subscribe ::
  "libs \<Rightarrow> SubscribeOptions \<Rightarrow> Config \<Rightarrow> runtime
   \<Rightarrow> unsubscriber option completion \<times> Config \<times> runtime" where
  "Config_subscribe L opts this w =
     (case sub_onChange opts of
        None \<Rightarrow> (Return None, this, w)
      | Some onChange \<Rightarrow>
          (case truthy_key (sub_key opts) of
             None \<Rightarrow>
               (let (ob, u) = Observable_subscribe onChange (observable this)
                in (Return (Some u), this\<lparr>observable := ob\<rparr>, w))
           | Some key \<Rightarrow>
               (case observables_at (observables this) key of
                  Inherited \<Rightarrow> (Throw TypeError, this, w)
                | Missing \<Rightarrow>
                    (let (ob0, w1) = new_Observable (Config_get L (Some key) this) w;
                         (ob, u) = Observable_subscribe onChange ob0
                     in (Return (Some u), this\<lparr>observables := (observables this)(key \<mapsto> ob)\<rparr>, w1))
                | Own existing \<Rightarrow>
                    (let (ob, u) = Observable_subscribe onChange existing
                     in (Return (Some u), this\<lparr>observables := (observables this)(key \<mapsto> ob)\<rparr>, w)))))"

text \<open>Calling a closure that \<open>Config_subscribe\<close> returned: it reaches the one Observable it
  was made for, if the Config still holds it.\<close>

definition Config_call_unsubscriber :: "unsubscriber \<Rightarrow> Config \<Rightarrow> Config" where
  "Config_call_unsubscriber u this =
     this\<lparr>observable := call_unsubscriber u (observable this),
          observables := (\<lambda>k. map_option (call_unsubscriber u) (observables this k))\<rparr>"

text \<open>\<^verbatim>\<open>let setValue = value; if (key) setValue = _.set({}, key, value);\<close>\<close>

definition setValue_of :: "libs \<Rightarrow> string option \<Rightarrow> jsval \<Rightarrow> runtime \<Rightarrow> jsval \<times> runtime" where
  "setValue_of L key value w =
     (case truthy_key key of
        Some k \<Rightarrow>
          (let (obj, w') = new_object w;
               (wrapped, r) = lodash_set L obj k value (next_ref w')
           in (wrapped, w'\<lparr>next_ref := r\<rparr>))
      | None \<Rightarrow> (value, w))"

text \<open>\<^verbatim>\<open>if (key && this.#observables[key]) this.#observables[key].set(this.get(key));\<close>
  At a key where \<^verbatim>\<open>this.#observables[key]\<close> is inherited, the condition holds and the call
  of its \<^verbatim>\<open>set\<close> is a \<^verbatim>\<open>TypeError\<close>.\<close>

definition refresh_key_observable ::
  "libs \<Rightarrow> string option \<Rightarrow> Config \<Rightarrow> runtime \<Rightarrow> unit completion \<times> Config \<times> runtime" where
  "refresh_key_observable L key this w =
     (case truthy_key key of
        Some k \<Rightarrow>
          (case observables_at (observables this) k of
             Own kob \<Rightarrow>
               (let (kob', w') = Observable_set (Config_get L key this) kob w
                in (Return (), this\<lparr>observables := (observables this)(k \<mapsto> kob')\<rparr>, w'))
           | Inherited \<Rightarrow> (Throw TypeError, this, w)
           | Missing \<Rightarrow> (Return (), this, w))
      | None \<Rightarrow> (Return (), this, w))"

text \<open>\<^verbatim>\<open>set({ override = false, value = null, key = null, onError = null } = {})\<close>; a
  default applies to a property that is \<^verbatim>\<open>undefined\<close>.\<close>

definition Config_set ::
  "libs \<Rightarrow> SetOptions \<Rightarrow> Config \<Rightarrow> runtime \<Rightarrow> unit completion \<times> Config \<times> runtime" where
  "Config_set L opts this w =
     (let value = (if set_value opts = JUndefined then JNull else set_value opts);
          key = set_key opts
      in if value = JNull then (Return (), this, w)
         else
           case (if set_override opts then Config_initializeConfig L JUndefined this w
                 else (Return (), this, w)) of
             (Throw e, this1, w1) \<Rightarrow> (Throw e, this1, w1)
           | (Return u, this1, w1) \<Rightarrow>
               (let (setValue, w2) = setValue_of L key value w1
                in case Config_merge L setValue (set_onError opts) this1 w2 of
                     (Throw e, this2, w3) \<Rightarrow> (Throw e, this2, w3)
                   | (Return u, this2, w3) \<Rightarrow>
                       (case refresh_key_observable L key this2 w3 of
                          (Throw e, this3, w4) \<Rightarrow> (Throw e, this3, w4)
                        | (Return u, this3, w4) \<Rightarrow>
                            (let (ob, w5) = Observable_set (config this3) (observable this3) w4
                             in (Return (), this3\<lparr>observable := ob\<rparr>, w5)))))"

section \<open>The collaborators on plain data\<close>

text \<open>
  The operations above take the collaborators as parameters. For running them on concrete
  inputs, this section gives what deepmerge, lodash and a small family of Joi schemas
  compute on values built from objects, arrays and primitives, at keys that are own
  properties: a key that names a member of \<^verbatim>\<open>Object.prototype\<close> is outside what this
  section computes.
\<close>

text \<open>Decimal numerals, for the index keys of arrays and strings.\<close>

fun string_of_digit :: "nat \<Rightarrow> string" where
  "string_of_digit n = [''0123456789'' ! n]"

function string_of_nat :: "nat \<Rightarrow> string" where
  "string_of_nat n =
     (if n < 10 then string_of_digit n
      else string_of_nat (n div 10) @ string_of_digit (n mod 10))"
  by pat_completeness auto
termination
  by (relation "measure id") auto

text \<open>\<^verbatim>\<open>Object.keys(v)\<close> with the values at the keys: the own enumerable properties.\<close>

fun own_fields :: "jsval \<Rightarrow> (string \<times> jsval) list" where
  "own_fields (JObj a fs) = fs"
| "own_fields (JArr a xs) = zip (map string_of_nat [0..<length xs]) xs"
| "own_fields (JStr s) = zip (map string_of_nat [0..<length s]) (map (\<lambda>c. JStr [c]) s)"
| "own_fields v = []"

fun object_fields :: "jsval \<Rightarrow> (string \<times> jsval) list" where
  "object_fields (JObj a fs) = fs"
| "object_fields v = []"

fun array_elements :: "jsval \<Rightarrow> jsval list" where
  "array_elements (JArr a xs) = xs"
| "array_elements v = []"

fun isArray :: "jsval \<Rightarrow> bool" where
  "isArray (JArr a xs) = True"
| "isArray v = False"

text \<open>deepmerge 4 with its default options: \<^verbatim>\<open>isMergeableObject\<close>,
  \<^verbatim>\<open>cloneUnlessOtherwiseSpecified\<close>, \<^verbatim>\<open>deepmerge\<close>, \<^verbatim>\<open>mergeObject\<close> (its loop over the
  keys of the source) and \<^verbatim>\<open>deepmerge.all\<close>, a left fold from a new empty object. Arrays are
  concatenated, objects are merged key by key, and every object of the result is new. A
  source that is \<^verbatim>\<open>null\<close> or \<^verbatim>\<open>undefined\<close> makes deepmerge throw, which is outside the model;
  no operation below passes one.\<close>

fun isMergeableObject :: "jsval \<Rightarrow> bool" where
  "isMergeableObject (JObj a fs) = True"
| "isMergeableObject (JArr a xs) = True"
| "isMergeableObject v = False"

fun clone :: "jsval \<Rightarrow> ref \<Rightarrow> jsval \<times> ref"
  and clone_list :: "jsval list \<Rightarrow> ref \<Rightarrow> jsval list \<times> ref"
  and clone_fields :: "(string \<times> jsval) list \<Rightarrow> ref \<Rightarrow> (string \<times> jsval) list \<times> ref" where
  "clone (JObj a fs) r = (let (fs', r') = clone_fields fs (Suc r) in (JObj r fs', r'))"
| "clone (JArr a xs) r = (let (xs', r') = clone_list xs (Suc r) in (JArr r xs', r'))"
| "clone JUndefined r = (JUndefined, r)"
| "clone JNull r = (JNull, r)"
| "clone (JBool b) r = (JBool b, r)"
| "clone (JNum n) r = (JNum n, r)"
| "clone JNaN r = (JNaN, r)"
| "clone (JStr s) r = (JStr s, r)"
| "clone_list [] r = ([], r)"
| "clone_list (x # xs) r =
     (let (x', r1) = clone x r; (xs', r2) = clone_list xs r1 in (x' # xs', r2))"
| "clone_fields [] r = ([], r)"
| "clone_fields ((k, x) # fs) r =
     (let (x', r1) = clone x r; (fs', r2) = clone_fields fs r1 in ((k, x') # fs', r2))"

fun deepmerge :: "jsval \<Rightarrow> jsval \<Rightarrow> ref \<Rightarrow> jsval \<times> ref"
  and mergeObject_source ::
    "(string \<times> jsval) list \<Rightarrow> (string \<times> jsval) list \<Rightarrow> (string \<times> jsval) list \<Rightarrow> ref
     \<Rightarrow> (string \<times> jsval) list \<times> ref" where
  "deepmerge target (JObj a sfs) r =
     (if isArray target then clone (JObj a sfs) r
      else
        (let (dest, r1) = clone_fields (object_fields target) (Suc r);
             (dest', r2) = mergeObject_source (object_fields target) sfs dest r1
         in (JObj r dest', r2)))"
| "deepmerge target (JArr a xs) r =
     (if isArray target
      then (let (ys, r1) = clone_list (array_elements target @ xs) (Suc r) in (JArr r ys, r1))
      else clone (JArr a xs) r)"
| "deepmerge target source r =
     (if isArray target then (source, r)
      else
        (let (dest, r1) = clone_fields (object_fields target) (Suc r)
         in (JObj r (fold (\<lambda>(k, x) d. AList.update k x d) (own_fields source) dest), r1)))"
| "mergeObject_source tfs [] dest r = (dest, r)"
| "mergeObject_source tfs ((k, sv) # rest) dest r =
     (let (x, r1) =
            (case map_of tfs k of
               Some tv \<Rightarrow> if isMergeableObject sv then deepmerge tv sv r else clone sv r
             | None \<Rightarrow> clone sv r)
      in mergeObject_source tfs rest (AList.update k x dest) r1)"

definition deepmerge_all :: "jsval list \<Rightarrow> ref \<Rightarrow> jsval \<times> ref" where
  "deepmerge_all vs r = foldl (\<lambda>(prev, r') next. deepmerge prev next r') (JObj r [], Suc r) vs"

text \<open>lodash \<^verbatim>\<open>_.get\<close> and \<^verbatim>\<open>_.set\<close> on a string path without brackets: a path that is
  an own key of the object is that key, any other path is split at its dots. \<^verbatim>\<open>_.set\<close> is
  the case that \<open>Config_set\<close> uses, a plain object and segments that are property names (a
  segment that is an array index would make lodash create an array).\<close>

fun split_dots :: "string \<Rightarrow> string \<Rightarrow> string list" where
  "split_dots acc [] = [rev acc]"
| "split_dots acc (c # cs) =
     (if c = CHR ''.'' then rev acc # split_dots [] cs else split_dots (c # acc) cs)"

definition castPath :: "string \<Rightarrow> jsval \<Rightarrow> string list" where
  "castPath path object =
     (if path \<in> set (map fst (own_fields object)) then [path] else split_dots [] path)"

fun baseGet :: "jsval \<Rightarrow> string list \<Rightarrow> jsval" where
  "baseGet object [] = object"
| "baseGet object (k # ks) =
     (case map_of (own_fields object) k of
        None \<Rightarrow> JUndefined
      | Some x \<Rightarrow> baseGet x ks)"

definition lodash_get_impl :: "jsval \<Rightarrow> string \<Rightarrow> jsval" where
  "lodash_get_impl object path = baseGet object (castPath path object)"

fun baseSet :: "jsval \<Rightarrow> string list \<Rightarrow> jsval \<Rightarrow> ref \<Rightarrow> jsval \<times> ref" where
  "baseSet (JObj a fs) [k] v r = (JObj a (AList.update k v fs), r)"
| "baseSet (JObj a fs) (k # k' # ks) v r =
     (let (child, r1) =
            (case map_of fs k of
               Some (JObj b gs) \<Rightarrow> (JObj b gs, r)
             | _ \<Rightarrow> (JObj r [], Suc r));
          (child', r2) = baseSet child (k' # ks) v r1
      in (JObj a (AList.update k child' fs), r2))"
| "baseSet object path v r = (object, r)"

definition lodash_set_impl :: "jsval \<Rightarrow> string \<Rightarrow> jsval \<Rightarrow> ref \<Rightarrow> jsval \<times> ref" where
  "lodash_set_impl object path v r = baseSet object (castPath path object) v r"

definition std_libs :: libs where
  "std_libs =
     \<lparr>deepMerge_all = deepmerge_all, lodash_set = lodash_set_impl, lodash_get = lodash_get_impl\<rparr>"

text \<open>A Joi schema \<^verbatim>\<open>Joi.object({ k: Joi.any() | Joi.string(), ... })\<close>, each key optional
  or \<^verbatim>\<open>.required()\<close>: the errors of the declared keys in declaration order, then one error
  for each key that is not declared, unless \<^verbatim>\<open>allowUnknown\<close>; all of them when
  \<^verbatim>\<open>abortEarly\<close> is false, else the first. The value is a shallow copy of the candidate.\<close>

datatype joi_type = JoiAny | JoiString

fun joi_type_errors :: "string \<Rightarrow> joi_type \<Rightarrow> jsval \<Rightarrow> string list" where
  "joi_type_errors k JoiAny v = []"
| "joi_type_errors k JoiString (JStr s) =
     (if s = [] then [k @ '' is not allowed to be empty''] else [])"
| "joi_type_errors k JoiString v = [k @ '' must be a string'']"

fun joi_child_errors :: "(string \<times> joi_type \<times> bool) list \<Rightarrow> (string \<times> jsval) list \<Rightarrow> string list" where
  "joi_child_errors [] fs = []"
| "joi_child_errors ((k, t, required) # keys) fs =
     (case map_of fs k of
        None \<Rightarrow> (if required then [k @ '' is required''] else [])
      | Some JUndefined \<Rightarrow> (if required then [k @ '' is required''] else [])
      | Some v \<Rightarrow> joi_type_errors k t v)
     @ joi_child_errors keys fs"

definition joi_unknown_errors :: "(string \<times> joi_type \<times> bool) list \<Rightarrow> (string \<times> jsval) list \<Rightarrow> string list" where
  "joi_unknown_errors keys fs =
     map (\<lambda>(k, v). k @ '' is not allowed'') (filter (\<lambda>(k, v). k \<notin> set (map fst keys)) fs)"

definition Joi_object :: "(string \<times> joi_type \<times> bool) list \<Rightarrow> joi" where
  "Joi_object keys v opts r =
     (case v of
        JObj a fs \<Rightarrow>
          (let errors = joi_child_errors keys fs
                 @ (if allowUnknown opts = Some True then [] else joi_unknown_errors keys fs);
               reported = (if abortEarly opts = Some False then errors else take 1 errors)
           in ((if errors = [] then None else Some (ValidationError reported), JObj r fs), Suc r))
      | JUndefined \<Rightarrow> ((None, JUndefined), r)
      | _ \<Rightarrow> ((Some (ValidationError [''value must be of type object'']), v), r))"

section \<open>Concrete inputs\<close>

text \<open>An Observable on which the listener 7 is subscribed twice, and the closure that the
  first of the two subscriptions returned.\<close>

definition subscribed_twice :: Observable where
  "subscribed_twice =
     fst (Observable_subscribe 7
       (fst (Observable_subscribe 7 \<lparr>oid = 0, val = JNum 0, listeners = []\<rparr>)))"

definition first_unsubscriber :: unsubscriber where
  "first_unsubscriber = snd (Observable_subscribe 7 \<lparr>oid = 0, val = JNum 0, listeners = []\<rparr>)"

text \<open>The runtime before the first call; the caller's own objects have references below 10.\<close>

definition runtime0 :: runtime where
  "runtime0 = \<lparr>next_ref = 10, calls = [], validations = []\<rparr>"

text \<open>\<^verbatim>\<open>Joi.object({ a: Joi.any() })\<close>, \<^verbatim>\<open>Joi.object({ b: Joi.any() })\<close> and
  \<^verbatim>\<open>Joi.object({ a: Joi.string() })\<close>.\<close>

definition schema_a :: schema_val where
  "schema_a = Joi (Joi_object [(''a'', JoiAny, False)])"

definition schema_b :: schema_val where
  "schema_b = Joi (Joi_object [(''b'', JoiAny, False)])"

definition schema_string_a :: schema_val where
  "schema_string_a = Joi (Joi_object [(''a'', JoiString, False)])"

text \<open>The Config that \<^verbatim>\<open>new Config(Joi.object({ a: Joi.any() }), { a: 1 })\<close> returns, and the
  runtime after it.\<close>

definition config_a1 :: Config where
  "config_a1 =
     \<lparr>config = JObj 14 [(''a'', JNum 1)], schema = schema_a,
      observable = \<lparr>oid = 15, val = JObj 14 [(''a'', JNum 1)], listeners = []\<rparr>,
      observables = Map.empty\<rparr>"

definition runtime1 :: runtime where
  "runtime1 =
     \<lparr>next_ref = 16, calls = [],
      validations =
        [\<lparr>v_candidate = JObj 13 [(''a'', JNum 1)],
          v_options = \<lparr>abortEarly = Some False, allowUnknown = None\<rparr>,
          v_error = None, v_value = JObj 14 [(''a'', JNum 1)]\<rparr>]\<rparr>"

text \<open>The same Config after \<^verbatim>\<open>subscribe({ onChange: f7 })\<close>, and after
  \<^verbatim>\<open>subscribe({ onChange: f7, key: 'a' })\<close>.\<close>

definition config_a1_root_listener :: Config where
  "config_a1_root_listener =
     fst (snd (Config_subscribe std_libs \<lparr>sub_onChange = Some 7, sub_key = None\<rparr> config_a1 runtime1))"

definition config_a1_key_listener :: Config where
  "config_a1_key_listener =
     fst (snd (Config_subscribe std_libs \<lparr>sub_onChange = Some 7, sub_key = Some ''a''\<rparr> config_a1 runtime1))"

definition runtime2 :: runtime where
  "runtime2 = runtime1\<lparr>next_ref := 17\<rparr>"

text \<open>The Config that \<^verbatim>\<open>new Config(Joi.object({ a: Joi.string() }), { a: 's' })\<close> returns,
  and the runtime after it.\<close>

definition config_string_a :: Config where
  "config_string_a =
     \<lparr>config = JObj 14 [(''a'', JStr ''s'')], schema = schema_string_a,
      observable = \<lparr>oid = 15, val = JObj 14 [(''a'', JStr ''s'')], listeners = []\<rparr>,
      observables = Map.empty\<rparr>"

definition runtime_string_a :: runtime where
  "runtime_string_a =
     \<lparr>next_ref = 16, calls = [],
      validations =
        [\<lparr>v_candidate = JObj 13 [(''a'', JStr ''s'')],
          v_options = \<lparr>abortEarly = Some False, allowUnknown = None\<rparr>,
          v_error = None, v_value = JObj 14 [(''a'', JStr ''s'')]\<rparr>]\<rparr>"

text \<open>\<^verbatim>\<open>set({ override: true, value: { a: 2 } })\<close> and \<^verbatim>\<open>set({ value: { a: 2 } })\<close> on the
  Config with the root listener.\<close>

definition set_override_a2 :: "unit completion \<times> Config \<times> runtime" where
  "set_override_a2 =
     Config_set std_libs
       \<lparr>set_override = True, set_value = JObj 1 [(''a'', JNum 2)], set_key = None, set_onError = None\<rparr>
       config_a1_root_listener runtime1"

definition set_patch_a2 :: "unit completion \<times> Config \<times> runtime" where
  "set_patch_a2 =
     Config_set std_libs
       \<lparr>set_override = False, set_value = JObj 1 [(''a'', JNum 2)], set_key = None, set_onError = None\<rparr>
       config_a1_root_listener runtime1"

text \<open>\<^verbatim>\<open>set({ override: true, value: { x: 1 }, onError: () => false })\<close>\<close>

definition set_override_rejected :: "unit completion \<times> Config \<times> runtime" where
  "set_override_rejected =
     Config_set std_libs
       \<lparr>set_override = True, set_value = JObj 1 [(''x'', JNum 1)], set_key = None,
        set_onError = Some (\<lambda>error. False)\<rparr>
       config_a1 runtime1"

text \<open>\<^verbatim>\<open>set({ value: { a: 2 } })\<close> on the Config with the listener on the key \<^verbatim>\<open>a\<close>.\<close>

definition set_a2_without_key :: "unit completion \<times> Config \<times> runtime" where
  "set_a2_without_key =
     Config_set std_libs
       \<lparr>set_override = False, set_value = JObj 1 [(''a'', JNum 2)], set_key = None, set_onError = None\<rparr>
       config_a1_key_listener runtime2"

text \<open>\<^verbatim>\<open>set({ value: { a: 5 }, onError: () => true })\<close> under the schema that wants a
  string at \<^verbatim>\<open>a\<close>.\<close>

definition set_number_accepted :: "unit completion \<times> Config \<times> runtime" where
  "set_number_accepted =
     Config_set std_libs
       \<lparr>set_override = False, set_value = JObj 1 [(''a'', JNum 5)], set_key = None,
        set_onError = Some (\<lambda>error. True)\<rparr>
       config_string_a runtime_string_a"

text \<open>\<^verbatim>\<open>setSchema(Joi.object({ b: Joi.any() }), { b: 2 })\<close>\<close>

definition after_setSchema_b :: "unit completion \<times> Config \<times> runtime" where
  "after_setSchema_b = Config_setSchema std_libs schema_b (JObj 1 [(''b'', JNum 2)]) config_a1 runtime1"

text \<open>\<^verbatim>\<open>{ value: { x: 1, y: 2 } }\<close>, \<^verbatim>\<open>{ value: { x: 1 }, onError: () => accept }\<close> and
  \<^verbatim>\<open>{ value: v }\<close>.\<close>

definition set_xy :: SetOptions where
  "set_xy =
     \<lparr>set_override = False, set_value = JObj 1 [(''x'', JNum 1), (''y'', JNum 2)],
      set_key = None, set_onError = None\<rparr>"

definition set_x :: "bool \<Rightarrow> SetOptions" where
  "set_x accept =
     \<lparr>set_override = False, set_value = JObj 1 [(''x'', JNum 1)],
      set_key = None, set_onError = Some (\<lambda>error. accept)\<rparr>"

definition set_value_only :: "jsval \<Rightarrow> SetOptions" where
  "set_value_only v = \<lparr>set_override = False, set_value = v, set_key = None, set_onError = None\<rparr>"

text \<open>\<^verbatim>\<open>{ key: 'a', value: v }\<close>\<close>

definition set_value_at_a :: "jsval \<Rightarrow> SetOptions" where
  "set_value_at_a v =
     \<lparr>set_override = False, set_value = v, set_key = Some ''a'', set_onError = None\<rparr>"

text \<open>\<^verbatim>\<open>set({ key: 'a', value: 2 })\<close> on the Config with the listener on the key \<^verbatim>\<open>a\<close>.\<close>

definition set_a2_with_key :: "unit completion \<times> Config \<times> runtime" where
  "set_a2_with_key =
     Config_set std_libs
       \<lparr>set_override = False, set_value = JNum 2, set_key = Some ''a'', set_onError = None\<rparr>
       config_a1_key_listener runtime2"

text \<open>\<^verbatim>\<open>Joi.object({ a: Joi.any().required() })\<close>, the Config that
  \<^verbatim>\<open>new Config(Joi.object({ a: Joi.any().required() }), { a: 1 })\<close> returns, and
  \<^verbatim>\<open>set({ override: true, value: { a: 2 } })\<close> on it.\<close>

definition schema_required_a :: schema_val where
  "schema_required_a = Joi (Joi_object [(''a'', JoiAny, True)])"

definition config_required_a1 :: Config where
  "config_required_a1 =
     \<lparr>config = JObj 14 [(''a'', JNum 1)], schema = schema_required_a,
      observable = \<lparr>oid = 15, val = JObj 14 [(''a'', JNum 1)], listeners = []\<rparr>,
      observables = Map.empty\<rparr>"

definition set_override_required :: "unit completion \<times> Config \<times> runtime" where
  "set_override_required =
     Config_set std_libs
       \<lparr>set_override = True, set_value = JObj 1 [(''a'', JNum 2)], set_key = None, set_onError = None\<rparr>
       config_required_a1 runtime1"

text \<open>\<^verbatim>\<open>{ override: true, value: { x: 1 }, onError: () => accept }\<close>, and the reset that
  \<^verbatim>\<open>override\<close> starts with, on the Config with the state \<^verbatim>\<open>{ a: 1 }\<close>.\<close>

definition set_x_override :: "bool \<Rightarrow> SetOptions" where
  "set_x_override accept =
     \<lparr>set_override = True, set_value = JObj 1 [(''x'', JNum 1)],
      set_key = None, set_onError = Some (\<lambda>error. accept)\<rparr>"

definition reset_config_a1 :: "unit completion \<times> Config \<times> runtime" where
  "reset_config_a1 = Config_initializeConfig std_libs JUndefined config_a1 runtime1"

section \<open>The last validated value and the reachable objects\<close>

text \<open>A recorded validation passed when it reported no error. It is one whose value
  \<^verbatim>\<open>_merge\<close> commits when it passed or was run with \<^verbatim>\<open>allowUnknown: true\<close>, the
  revalidation that \<^verbatim>\<open>_merge\<close> runs only after the \<^verbatim>\<open>onError\<close> handler has returned
  truthy.\<close>

definition passed :: "validation \<Rightarrow> bool" where
  "passed e \<longleftrightarrow> v_error e = None"

definition committed :: "validation \<Rightarrow> bool" where
  "committed e \<longleftrightarrow> v_error e = None \<or> allowUnknown (v_options e) = Some True"

text \<open>The value of the last recorded validation that satisfies \<open>P\<close>.\<close>

fun last_value_where :: "(validation \<Rightarrow> bool) \<Rightarrow> validation list \<Rightarrow> jsval option" where
  "last_value_where P [] = None"
| "last_value_where P (e # es) =
     (case last_value_where P es of
        Some v \<Rightarrow> Some v
      | None \<Rightarrow> if P e then Some (v_value e) else None)"

text \<open>The state is the last value that passed validation.\<close>

definition state_is_last_passed :: "Config \<times> runtime \<Rightarrow> bool" where
  "state_is_last_passed cw \<longleftrightarrow>
     last_value_where passed (validations (snd cw)) = Some (config (fst cw))"

text \<open>The schema is a Joi schema and the state is the value of the last validation that
  passed or was the approved revalidation.\<close>

definition state_is_last_committed :: "Config \<times> runtime \<Rightarrow> bool" where
  "state_is_last_committed cw \<longleftrightarrow>
     Joi_isSchema (schema (fst cw))
     \<and> last_value_where committed (validations (snd cw)) = Some (config (fst cw))"

text \<open>\<^verbatim>\<open>setSchema\<close> throws before it assigns anything: the new schema is no Joi schema, or
  its own validation of the data reports an error.\<close>

definition setSchema_rejects :: "schema_val \<Rightarrow> jsval \<Rightarrow> Config \<Rightarrow> runtime \<Rightarrow> bool" where
  "setSchema_rejects newSchema config_arg this w =
     (case newSchema of
        Joi validate \<Rightarrow>
          fst (fst (validate (if config_arg = JUndefined then config this else config_arg)
                      \<lparr>abortEarly = Some False, allowUnknown = None\<rparr> (next_ref w))) \<noteq> None
      | _ \<Rightarrow> True)"

text \<open>A Config with the runtime it runs in, as a caller can hold it: what the constructor
  returned, then any calls on it, whose exceptions the caller catches, and anything else
  that records no validation. Two calls are left out: a \<^verbatim>\<open>set\<close> with \<^verbatim>\<open>override\<close> whose
  reset throws, and a \<^verbatim>\<open>setSchema\<close> that throws after its own validation passed.\<close>

inductive reachable :: "libs \<Rightarrow> Config \<times> runtime \<Rightarrow> bool" for L :: libs where
  constructed:
    "Config_constructor L s cfg w = (Return this, w') \<Longrightarrow> reachable L (this, w')"
| set_returned:
    "reachable L (this, w) \<Longrightarrow> Config_set L opts this w = (Return (), this', w')
       \<Longrightarrow> reachable L (this', w')"
| set_threw:
    "reachable L (this, w) \<Longrightarrow> \<not> set_override opts
       \<Longrightarrow> Config_set L opts this w = (Throw e, this', w')
       \<Longrightarrow> reachable L (this', w')"
| set_override_threw:
    "reachable L (this, w) \<Longrightarrow> set_override opts
       \<Longrightarrow> fst (Config_initializeConfig L JUndefined this w) = Return ()
       \<Longrightarrow> Config_set L opts this w = (Throw e, this', w')
       \<Longrightarrow> reachable L (this', w')"
| setSchema_returned:
    "reachable L (this, w) \<Longrightarrow> Config_setSchema L s cfg this w = (Return (), this', w')
       \<Longrightarrow> reachable L (this', w')"
| setSchema_rejected:
    "reachable L (this, w) \<Longrightarrow> setSchema_rejects s cfg this w
       \<Longrightarrow> Config_setSchema L s cfg this w = (c, this', w')
       \<Longrightarrow> reachable L (this', w')"
| subscribed:
    "reachable L (this, w) \<Longrightarrow> Config_subscribe L sopts this w = (c, this', w')
       \<Longrightarrow> reachable L (this', w')"
| unsubscribed:
    "reachable L (this, w) \<Longrightarrow> reachable L (Config_call_unsubscriber u this, w)"
| elsewhere:
    "reachable L (this, w) \<Longrightarrow> validations w' = validations w \<Longrightarrow> reachable L (this, w')"

section \<open>Properties of Observable\<close>

lemma calls_call_listeners:
  "calls (call_listeners ls v w) = calls w @ map (\<lambda>l. (l, v)) ls"
  by (induction ls arbitrary: w) auto

lemma next_ref_call_listeners: "next_ref (call_listeners ls v w) = next_ref w"
  by (induction ls arbitrary: w) auto

lemma validations_call_listeners: "validations (call_listeners ls v w) = validations w"
  by (induction ls arbitrary: w) auto

lemma not_strict_neq_eq: "\<not> strict_neq a b \<Longrightarrow> a = b"
  by (cases a) auto

lemma strict_neq_same: "v \<noteq> JNaN \<Longrightarrow> \<not> strict_neq v v"
  by (cases v) auto

lemma val_fst_Observable_set: "val (fst (Observable_set v ob w)) = v"
  by (auto simp: Observable_set_def dest: not_strict_neq_eq)

text \<open>
  Claim C9. \<^verbatim>\<open>set(v)\<close> calls the listeners, each registration once, in subscription
  order and with \<open>v\<close>, exactly when \<open>v\<close> is not identical (\<^verbatim>\<open>!==\<close>) to the stored value, and
  otherwise calls none; the comparison is identity, so an object with the same contents at
  another reference notifies. A second \<^verbatim>\<open>set\<close> with the same value (any value but \<open>NaN\<close>,
  which is never identical to itself) calls no listener.
\<close>

theorem Observable_set_notifies_iff_not_identical:
  "calls (snd (Observable_set v ob w)) =
     calls w @ (if strict_neq (val ob) v then map (\<lambda>l. (l, v)) (listeners ob) else [])
   \<and> (v \<noteq> JNaN \<longrightarrow>
        calls (snd (Observable_set v (fst (Observable_set v ob w)) (snd (Observable_set v ob w))))
          = calls (snd (Observable_set v ob w)))"
proof
  show "calls (snd (Observable_set v ob w)) =
     calls w @ (if strict_neq (val ob) v then map (\<lambda>l. (l, v)) (listeners ob) else [])"
    by (simp add: Observable_set_def calls_call_listeners)
next
  show "v \<noteq> JNaN \<longrightarrow>
        calls (snd (Observable_set v (fst (Observable_set v ob w)) (snd (Observable_set v ob w))))
          = calls (snd (Observable_set v ob w))"
  proof
    assume "v \<noteq> JNaN"
    then have "\<not> strict_neq (val (fst (Observable_set v ob w))) v"
      by (simp add: val_fst_Observable_set strict_neq_same)
    then show "calls (snd (Observable_set v (fst (Observable_set v ob w)) (snd (Observable_set v ob w))))
          = calls (snd (Observable_set v ob w))"
      by (simp add: Observable_set_def)
  qed
qed

theorem Observable_set_notifies_witness:
  "calls (snd (Observable_set (JObj 2 [(''a'', JNum 1)])
            \<lparr>oid = 0, val = JObj 1 [(''a'', JNum 1)], listeners = [7, 8, 7]\<rparr>
            \<lparr>next_ref = 3, calls = [], validations = []\<rparr>))
     = [(7, JObj 2 [(''a'', JNum 1)]), (8, JObj 2 [(''a'', JNum 1)]), (7, JObj 2 [(''a'', JNum 1)])]
   \<and> calls (snd (Observable_set (JObj 2 [(''a'', JNum 1)])
            (fst (Observable_set (JObj 2 [(''a'', JNum 1)])
                   \<lparr>oid = 0, val = JObj 1 [(''a'', JNum 1)], listeners = [7, 8, 7]\<rparr>
                   \<lparr>next_ref = 3, calls = [], validations = []\<rparr>))
            (snd (Observable_set (JObj 2 [(''a'', JNum 1)])
                   \<lparr>oid = 0, val = JObj 1 [(''a'', JNum 1)], listeners = [7, 8, 7]\<rparr>
                   \<lparr>next_ref = 3, calls = [], validations = []\<rparr>))))
     = [(7, JObj 2 [(''a'', JNum 1)]), (8, JObj 2 [(''a'', JNum 1)]), (7, JObj 2 [(''a'', JNum 1)])]"
  using Observable_set_notifies_iff_not_identical
          [of "JObj 2 [(''a'', JNum 1)]"
              "\<lparr>oid = 0, val = JObj 1 [(''a'', JNum 1)], listeners = [7, 8, 7]\<rparr>"
              "\<lparr>next_ref = 3, calls = [], validations = []\<rparr>"]
  by simp

text \<open>
  Claim C4, as stated: the same listener is subscribed twice and the closure returned by
  the first subscription is called. Both registrations are removed and a later change
  notifies nobody.
\<close>

theorem unsubscribe_once_removes_both_registrations:
  "listeners subscribed_twice = [7, 7]
   \<and> listeners (call_unsubscriber first_unsubscriber subscribed_twice) = []
   \<and> calls (snd (Observable_set (JNum 1)
                (call_unsubscriber first_unsubscriber subscribed_twice)
                \<lparr>next_ref = 1, calls = [], validations = []\<rparr>)) = []"
  by (simp add: subscribed_twice_def first_unsubscriber_def Observable_subscribe_def
      Observable_set_def)

text \<open>
  Claim C4, amended. Calling the closure that \<^verbatim>\<open>subscribe(l)\<close> returned removes every
  registration of the function \<open>l\<close> on that Observable: \<open>l\<close> is notified no more, and every
  other listener keeps all its registrations and its place in the order of notification.
\<close>

theorem unsubscribe_removes_every_registration:
  assumes "Observable_subscribe l ob0 = (ob1, u)"
    and "oid ob = oid ob0"
  shows "listeners (call_unsubscriber u ob) = filter (\<lambda>m. m \<noteq> l) (listeners ob)
       \<and> l \<notin> set (listeners (call_unsubscriber u ob))
       \<and> (\<forall>m. m \<noteq> l \<longrightarrow>
             count_list (listeners (call_unsubscriber u ob)) m = count_list (listeners ob) m)
       \<and> calls (snd (Observable_set v (call_unsubscriber u ob) w)) =
           calls w @ (if strict_neq (val ob) v
                      then map (\<lambda>m. (m, v)) (filter (\<lambda>m. m \<noteq> l) (listeners ob))
                      else [])"
proof -
  from assms have u: "u = Unsubscriber (oid ob) l"
    by (auto simp: Observable_subscribe_def)
  have count: "count_list (filter (\<lambda>m. m \<noteq> l) xs) m = count_list xs m" if "m \<noteq> l" for m xs
    using that by (induction xs) auto
  show ?thesis
    using u count by (simp add: Observable_set_def calls_call_listeners)
qed

theorem unsubscribe_removes_every_registration_witness:
  "Observable_subscribe 7 \<lparr>oid = 0, val = JNum 0, listeners = [8]\<rparr>
     = (\<lparr>oid = 0, val = JNum 0, listeners = [8, 7]\<rparr>, Unsubscriber 0 7)
   \<and> oid \<lparr>oid = 0, val = JNum 0, listeners = [8, 7, 9, 7, 8]\<rparr> = oid \<lparr>oid = 0, val = JNum 0, listeners = [8]\<rparr>
   \<and> listeners (call_unsubscriber (Unsubscriber 0 7) \<lparr>oid = 0, val = JNum 0, listeners = [8, 7, 9, 7, 8]\<rparr>)
       = [8, 9, 8]
   \<and> calls (snd (Observable_set (JNum 1)
         (call_unsubscriber (Unsubscriber 0 7) \<lparr>oid = 0, val = JNum 0, listeners = [8, 7, 9, 7, 8]\<rparr>)
         \<lparr>next_ref = 1, calls = [], validations = []\<rparr>))
       = [(8, JNum 1), (9, JNum 1), (8, JNum 1)]"
proof -
  have h1: "Observable_subscribe 7 \<lparr>oid = 0, val = JNum 0, listeners = [8]\<rparr>
     = (\<lparr>oid = 0, val = JNum 0, listeners = [8, 7]\<rparr>, Unsubscriber 0 7)"
    by (simp add: Observable_subscribe_def)
  have h2: "oid \<lparr>oid = 0, val = JNum 0, listeners = [8, 7, 9, 7, 8]\<rparr>
     = oid \<lparr>oid = 0, val = JNum 0, listeners = [8]\<rparr>"
    by simp
  show ?thesis
    using h1 h2 unsubscribe_removes_every_registration [OF h1 h2, of "JNum 1" "\<lparr>next_ref = 1, calls = [], validations = []\<rparr>"]
    by simp
qed

section \<open>Properties of Config\<close>

lemma Config_merge_not_Joi:
  "\<not> Joi_isSchema (schema this) \<Longrightarrow> fst (Config_merge L nv h this w) = Throw TypeError"
  by (cases "schema this") (auto simp: Config_merge_def split: prod.splits)

text \<open>
  Claim C8 at the input it names: the constructor with no schema (\<^verbatim>\<open>null\<close>, or any falsy
  value). Whatever the initial values, \<^verbatim>\<open>_merge\<close> calls \<^verbatim>\<open>this.#schema.validate\<close> and the
  constructor throws a \<^verbatim>\<open>TypeError\<close>.
\<close>

theorem constructor_without_schema_throws:
  "fst (Config_constructor L Falsy cfg w) = Throw TypeError"
  by (auto simp: Config_constructor_def Config_initializeConfig_def Config_merge_def
      uninitialised_def new_object_def split: prod.splits)

lemma Config_merge_error_no_handler:
  assumes "schema this = Joi validate"
    and "deepMerge_all L [config this, p] (next_ref w) = (merged, r1)"
    and "validate merged \<lparr>abortEarly = Some False, allowUnknown = None\<rparr> r1 = ((Some err, v), r2)"
  shows "Config_merge L p None this w =
           (Throw (Validation err), this,
            validated merged \<lparr>abortEarly = Some False, allowUnknown = None\<rparr> (Some err, v) r2 w)"
  using assms by (simp add: Config_merge_def)

lemma Config_merge_error_handler:
  assumes "schema this = Joi validate"
    and "deepMerge_all L [config this, p] (next_ref w) = (merged, r1)"
    and "validate merged \<lparr>abortEarly = Some False, allowUnknown = None\<rparr> r1 = ((Some err, v), r2)"
    and "validate merged \<lparr>abortEarly = Some False, allowUnknown = Some True\<rparr> r2 = ((error2, fallbackValue), r3)"
  shows "Config_merge L p (Some handler) this w =
           (if handler err
            then (Return (), this\<lparr>config := fallbackValue\<rparr>,
                  validated merged \<lparr>abortEarly = Some False, allowUnknown = Some True\<rparr>
                    (error2, fallbackValue) r3
                    (validated merged \<lparr>abortEarly = Some False, allowUnknown = None\<rparr> (Some err, v) r2 w))
            else (Return (), this,
                  validated merged \<lparr>abortEarly = Some False, allowUnknown = None\<rparr> (Some err, v) r2 w))"
  using assms by (simp add: Config_merge_def)

lemma Config_merge_valid:
  assumes "schema this = Joi validate"
    and "deepMerge_all L [config this, p] (next_ref w) = (merged, r1)"
    and "validate merged \<lparr>abortEarly = Some False, allowUnknown = None\<rparr> r1 = ((None, v), r2)"
  shows "Config_merge L p h this w =
           (Return (), this\<lparr>config := v\<rparr>,
            validated merged \<lparr>abortEarly = Some False, allowUnknown = None\<rparr> (None, v) r2 w)"
  using assms by (simp add: Config_merge_def)

lemma calls_validated [simp]: "calls (validated m opts res r w) = calls w"
  by (simp add: validated_def)

lemma not_member_not_Inherited:
  "k \<notin> set Object_prototype_members \<Longrightarrow> observables_at obs k \<noteq> Inherited"
  by (simp add: observables_at_def split: option.splits)

lemma refresh_key_observable_fields:
  assumes "refresh_key_observable L key this w = (c, this', w')"
  shows "config this' = config this" "schema this' = schema this"
    "observable this' = observable this" "validations w' = validations w"
  using assms
  by (auto simp: refresh_key_observable_def Observable_set_def validations_call_listeners
      split: option.splits prod.splits observables_entry.splits if_splits)

lemma refresh_key_observable_returns:
  assumes "\<forall>k. truthy_key key = Some k \<longrightarrow> k \<notin> set Object_prototype_members"
  shows "fst (refresh_key_observable L key this w) = Return ()"
  using assms
  by (auto simp: refresh_key_observable_def observables_at_def
      split: option.splits prod.splits observables_entry.splits if_splits)

lemma val_Observable_set: "Observable_set v ob w = (ob', w') \<Longrightarrow> val ob' = v"
  by (auto simp: Observable_set_def split: if_splits dest: not_strict_neq_eq)

lemma validations_Observable_set:
  "Observable_set v ob w = (ob', w') \<Longrightarrow> validations w' = validations w"
  by (auto simp: Observable_set_def validations_call_listeners split: if_splits)

text \<open>What \<^verbatim>\<open>set\<close> does after \<^verbatim>\<open>_merge\<close> has returned: lines 120 to 123.\<close>

lemma set_tail_fields:
  assumes "(case refresh_key_observable L key this2 w3 of
              (Throw e, this3, w4) \<Rightarrow> (Throw e, this3, w4)
            | (Return u, this3, w4) \<Rightarrow>
                (let (ob, w5) = Observable_set (config this3) (observable this3) w4
                 in (Return (), this3\<lparr>observable := ob\<rparr>, w5))) = (c, this', w')"
  shows "config this' = config this2" "schema this' = schema this2"
    "validations w' = validations w3"
proof -
  obtain c3 this3 w4 where r: "refresh_key_observable L key this2 w3 = (c3, this3, w4)"
    by (cases "refresh_key_observable L key this2 w3") auto
  obtain ob w5 where o: "Observable_set (config this3) (observable this3) w4 = (ob, w5)"
    by (cases "Observable_set (config this3) (observable this3) w4") auto
  from assms r o have "this' = this3 \<or> this' = this3\<lparr>observable := ob\<rparr>"
    and "w' = w4 \<or> w' = w5"
    by (cases c3; simp)+
  with refresh_key_observable_fields [OF r] validations_Observable_set [OF o]
  show "config this' = config this2" "schema this' = schema this2"
    "validations w' = validations w3"
    by auto
qed

lemma set_tail_returned:
  assumes "(case refresh_key_observable L key this2 w3 of
              (Throw e, this3, w4) \<Rightarrow> (Throw e, this3, w4)
            | (Return u, this3, w4) \<Rightarrow>
                (let (ob, w5) = Observable_set (config this3) (observable this3) w4
                 in (Return (), this3\<lparr>observable := ob\<rparr>, w5))) = (c, this', w')"
    and "\<forall>k. truthy_key key = Some k \<longrightarrow> k \<notin> set Object_prototype_members"
  shows "c = Return ()" "val (observable this') = config this'"
proof -
  obtain c3 this3 w4 where r: "refresh_key_observable L key this2 w3 = (c3, this3, w4)"
    by (cases "refresh_key_observable L key this2 w3") auto
  obtain ob w5 where o: "Observable_set (config this3) (observable this3) w4 = (ob, w5)"
    by (cases "Observable_set (config this3) (observable this3) w4") auto
  from refresh_key_observable_returns [OF assms(2), of L this2 w3] r have c3: "c3 = Return ()"
    by simp
  with assms(1) r o have "c = Return ()" "this' = this3\<lparr>observable := ob\<rparr>" by simp_all
  with val_Observable_set [OF o] show "c = Return ()" "val (observable this') = config this'"
    by simp_all
qed

lemma set_tail_root:
  assumes "(case refresh_key_observable L key this2 w3 of
              (Throw e, this3, w4) \<Rightarrow> (Throw e, this3, w4)
            | (Return u, this3, w4) \<Rightarrow>
                (let (ob, w5) = Observable_set (config this3) (observable this3) w4
                 in (Return (), this3\<lparr>observable := ob\<rparr>, w5))) = (Return (), this', w')"
  shows "val (observable this') = config this'"
proof -
  obtain c3 this3 w4 where r: "refresh_key_observable L key this2 w3 = (c3, this3, w4)"
    by (cases "refresh_key_observable L key this2 w3") auto
  obtain ob w5 where o: "Observable_set (config this3) (observable this3) w4 = (ob, w5)"
    by (cases "Observable_set (config this3) (observable this3) w4") auto
  from assms r o have "this' = this3\<lparr>observable := ob\<rparr>"
    by (cases c3) simp_all
  with val_Observable_set [OF o] show ?thesis by simp
qed

lemma Config_set_after_reset:
  assumes "set_value opts \<noteq> JNull" "set_value opts \<noteq> JUndefined"
    and "(if set_override opts then Config_initializeConfig L JUndefined this w
          else (Return (), this, w)) = (Return (), this1, w1)"
    and "setValue_of L (set_key opts) (set_value opts) w1 = (p, w2)"
  shows "Config_set L opts this w =
     (case Config_merge L p (set_onError opts) this1 w2 of
        (Throw e, this2, w3) \<Rightarrow> (Throw e, this2, w3)
      | (Return u, this2, w3) \<Rightarrow>
          (case refresh_key_observable L (set_key opts) this2 w3 of
              (Throw e, this3, w4) \<Rightarrow> (Throw e, this3, w4)
            | (Return u, this3, w4) \<Rightarrow>
                (let (ob, w5) = Observable_set (config this3) (observable this3) w4
                 in (Return (), this3\<lparr>observable := ob\<rparr>, w5))))"
  using assms by (simp add: Config_set_def)

lemma Config_set_after_merge:
  assumes "set_value opts \<noteq> JNull" "set_value opts \<noteq> JUndefined" "\<not> set_override opts"
    and "setValue_of L (set_key opts) (set_value opts) w = (p, w2)"
  shows "Config_set L opts this w =
     (case Config_merge L p (set_onError opts) this w2 of
        (Throw e, this2, w3) \<Rightarrow> (Throw e, this2, w3)
      | (Return u, this2, w3) \<Rightarrow>
          (case refresh_key_observable L (set_key opts) this2 w3 of
              (Throw e, this3, w4) \<Rightarrow> (Throw e, this3, w4)
            | (Return u, this3, w4) \<Rightarrow>
                (let (ob, w5) = Observable_set (config this3) (observable this3) w4
                 in (Return (), this3\<lparr>observable := ob\<rparr>, w5))))"
  using assms by (simp add: Config_set_def)

lemma calls_setValue_of: "calls (snd (setValue_of L key value w)) = calls w"
  by (simp add: setValue_of_def new_object_def split: option.splits prod.splits)

lemma validations_setValue_of:
  "setValue_of L key value w = (p, w') \<Longrightarrow> validations w' = validations w"
  by (auto simp: setValue_of_def new_object_def split: option.splits prod.splits)

text \<open>
  Claim C2. A \<^verbatim>\<open>set\<close> without \<^verbatim>\<open>override\<close> and without \<^verbatim>\<open>onError\<close>, whose value is not
  \<^verbatim>\<open>null\<close> (a \<^verbatim>\<open>null\<close> value is never validated) and whose merge with the state fails
  validation: the call throws the error that \<^verbatim>\<open>validate\<close> returned under
  \<^verbatim>\<open>abortEarly: false\<close>, the object is what it was before the call, so \<^verbatim>\<open>get\<close> returns
  the same value for every key, and no listener is called. The runtime has the references
  that the merge and the validation allocated and the record of that one validation.
\<close>

theorem set_invalid_patch_throws_state_unchanged:
  assumes "schema this = Joi validate"
    and "set_value opts \<noteq> JNull" "set_value opts \<noteq> JUndefined"
    and "\<not> set_override opts" "set_onError opts = None"
    and "setValue_of L (set_key opts) (set_value opts) w = (p, w2)"
    and "deepMerge_all L [config this, p] (next_ref w2) = (merged, r1)"
    and "validate merged \<lparr>abortEarly = Some False, allowUnknown = None\<rparr> r1 = ((Some err, v), r2)"
  shows "Config_set L opts this w =
           (Throw (Validation err), this,
            validated merged \<lparr>abortEarly = Some False, allowUnknown = None\<rparr> (Some err, v) r2 w2)
       \<and> Config_get L k (fst (snd (Config_set L opts this w))) = Config_get L k this
       \<and> calls (snd (snd (Config_set L opts this w))) = calls w"
  using assms calls_setValue_of [of L "set_key opts" "set_value opts" w]
  by (simp add: Config_set_after_merge Config_merge_error_no_handler)

text \<open>
  Claim C5, amended. A \<^verbatim>\<open>set\<close> with an \<^verbatim>\<open>onError\<close> handler whose merge fails validation.
  If the handler returns truthy, the state becomes the value of the \<^verbatim>\<open>allowUnknown\<close>
  revalidation of the merged value. If it returns falsy, nothing of the patch is merged:
  the state is the one the merge started from, which is the whole object before the call
  when \<^verbatim>\<open>override\<close> is not set, and the reset state when it is. The call returns without
  throwing when its key, if it has one, names no member of \<^verbatim>\<open>Object.prototype\<close>; at such a
  key line 121 throws after \<^verbatim>\<open>_merge\<close> has returned.
\<close>

theorem set_onError_fallback:
  assumes "schema this1 = Joi validate"
    and "set_value opts \<noteq> JNull" "set_value opts \<noteq> JUndefined"
    and "(if set_override opts then Config_initializeConfig L JUndefined this w
          else (Return (), this, w)) = (Return (), this1, w1)"
    and "set_onError opts = Some handler"
    and "setValue_of L (set_key opts) (set_value opts) w1 = (p, w2)"
    and "deepMerge_all L [config this1, p] (next_ref w2) = (merged, r1)"
    and "validate merged \<lparr>abortEarly = Some False, allowUnknown = None\<rparr> r1 = ((Some err, v), r2)"
    and "validate merged \<lparr>abortEarly = Some False, allowUnknown = Some True\<rparr> r2 = ((error2, fallbackValue), r3)"
  shows "(handler err \<longrightarrow> config (fst (snd (Config_set L opts this w))) = fallbackValue)
       \<and> (\<not> handler err \<longrightarrow> config (fst (snd (Config_set L opts this w))) = config this1)
       \<and> (\<not> set_override opts \<longrightarrow> this1 = this)
       \<and> ((\<forall>k. truthy_key (set_key opts) = Some k \<longrightarrow> k \<notin> set Object_prototype_members)
            \<longrightarrow> fst (Config_set L opts this w) = Return ())"
proof -
  obtain c this' w' where res: "Config_set L opts this w = (c, this', w')"
    by (cases "Config_set L opts this w") auto
  have same: "\<not> set_override opts \<longrightarrow> this1 = this"
    using assms(4) by auto
  define this2 where "this2 = (if handler err then this1\<lparr>config := fallbackValue\<rparr> else this1)"
  have "\<exists>w3. Config_merge L p (Some handler) this1 w2 = (Return (), this2, w3)"
    using assms by (simp add: Config_merge_error_handler this2_def)
  then obtain w3 where
    merge: "Config_merge L p (Some handler) this1 w2 = (Return (), this2, w3)" ..
  note this2 = this2_def
  from assms res merge have tail:
    "(case refresh_key_observable L (set_key opts) this2 w3 of
              (Throw e, this3, w4) \<Rightarrow> (Throw e, this3, w4)
            | (Return u, this3, w4) \<Rightarrow>
                (let (ob, w5) = Observable_set (config this3) (observable this3) w4
                 in (Return (), this3\<lparr>observable := ob\<rparr>, w5))) = (c, this', w')"
    by (simp add: Config_set_after_reset)
  from set_tail_fields(1) [OF tail] this2 res
  have st: "handler err \<longrightarrow> config (fst (snd (Config_set L opts this w))) = fallbackValue"
    "\<not> handler err \<longrightarrow> config (fst (snd (Config_set L opts this w))) = config this1"
    by simp_all
  have ret: "(\<forall>k. truthy_key (set_key opts) = Some k \<longrightarrow> k \<notin> set Object_prototype_members)
            \<longrightarrow> fst (Config_set L opts this w) = Return ()"
    using set_tail_returned(1) [OF tail] res by simp
  from st same ret show ?thesis by blast
qed


lemma truthy_key_Some: "truthy_key key = Some k \<Longrightarrow> key = Some k \<and> k \<noteq> []"
  by (cases key) (auto split: if_splits)

lemma Config_get_cong: "config a = config b \<Longrightarrow> Config_get L key a = Config_get L key b"
  by (simp add: Config_get_def split: option.splits)

lemma Config_merge_observables:
  assumes "Config_merge L nv h this w = (c, this', w')"
  shows "observables this' = observables this" "observable this' = observable this"
    "schema this' = schema this" "calls w' = calls w"
  using assms
  by (auto simp: Config_merge_def Let_def validated_def
      split: prod.splits schema_val.splits option.splits if_splits)

lemma refresh_key_observable_own:
  assumes "refresh_key_observable L key this w = (c, this', w')"
    and "truthy_key key = Some k" and "observables this k = Some kob"
  shows "c = Return ()
       \<and> (\<exists>kob'. observables this' k = Some kob' \<and> oid kob' = oid kob
              \<and> listeners kob' = listeners kob \<and> val kob' = Config_get L key this)
       \<and> (\<forall>j. j \<noteq> k \<longrightarrow> observables this' j = observables this j)"
  using assms
  by (auto simp: refresh_key_observable_def observables_at_def Observable_set_def
      split: prod.splits if_splits dest: not_strict_neq_eq)

text \<open>
  Claim C7, amended. The Config holds a per-key Observable for the key \<open>k\<close>, and \<^verbatim>\<open>set\<close> is
  called without \<^verbatim>\<open>override\<close>, with the key \<open>k\<close> and a value that is not \<^verbatim>\<open>null\<close>. When the
  call returns, the Config still holds that Observable for \<open>k\<close>, with the listeners it had,
  and its value is the value at \<open>k\<close> in the new state; the Observables held for the other
  keys are what they were before the call.
\<close>

theorem set_with_key_refreshes_key_observable:
  assumes "Config_set L opts this w = (Return (), this', w')"
    and "set_value opts \<noteq> JNull" "set_value opts \<noteq> JUndefined"
    and "\<not> set_override opts"
    and "truthy_key (set_key opts) = Some k"
    and "observables this k = Some kob"
  shows "(\<exists>kob'. observables this' k = Some kob' \<and> oid kob' = oid kob
            \<and> listeners kob' = listeners kob \<and> val kob' = Config_get L (Some k) this')
       \<and> (\<forall>j. j \<noteq> k \<longrightarrow> observables this' j = observables this j)"
proof -
  have key: "set_key opts = Some k"
    using assms(5) by (simp add: truthy_key_Some)
  obtain p w2 where sv: "setValue_of L (set_key opts) (set_value opts) w = (p, w2)"
    by (cases "setValue_of L (set_key opts) (set_value opts) w") auto
  obtain c2 this2 w3 where m: "Config_merge L p (set_onError opts) this w2 = (c2, this2, w3)"
    by (cases "Config_merge L p (set_onError opts) this w2") auto
  obtain c3 this3 w4 where r: "refresh_key_observable L (set_key opts) this2 w3 = (c3, this3, w4)"
    by (cases "refresh_key_observable L (set_key opts) this2 w3") auto
  obtain ob w5 where o: "Observable_set (config this3) (observable this3) w4 = (ob, w5)"
    by (cases "Observable_set (config this3) (observable this3) w4") auto
  from assms(1-4) sv m have c2: "c2 = Return ()"
    by (cases c2) (simp_all add: Config_set_after_merge)
  from assms(1-4) sv m r o c2 have c3: "c3 = Return ()" and this': "this' = this3\<lparr>observable := ob\<rparr>"
    by (cases c3; simp add: Config_set_after_merge)+
  have "observables this2 k = Some kob"
    using Config_merge_observables(1) [OF m] assms(6) by simp
  from refresh_key_observable_own [OF r assms(5) this]
  obtain kob' where k: "observables this3 k = Some kob'" "oid kob' = oid kob"
    "listeners kob' = listeners kob" "val kob' = Config_get L (set_key opts) this2"
    and others: "\<forall>j. j \<noteq> k \<longrightarrow> observables this3 j = observables this2 j"
    by blast
  have "config this' = config this2"
    using this' refresh_key_observable_fields(1) [OF r] by simp
  then have "Config_get L (Some k) this' = Config_get L (set_key opts) this2"
    using key Config_get_cong [of this' this2 L "Some k"] by simp
  with k others this' Config_merge_observables(1) [OF m] show ?thesis by simp
qed

text \<open>With \<^verbatim>\<open>override\<close>, a \<^verbatim>\<open>set\<close> that returns leaves the Config without any per-key
  Observable: \<^verbatim>\<open>_initializeConfig\<close> assigns a new empty \<^verbatim>\<open>#observables\<close>.\<close>

lemma Config_initializeConfig_fields:
  assumes "Config_initializeConfig L cfg this w = (Return (), this', w')"
  shows "val (observable this') = config this' \<and> listeners (observable this') = []
       \<and> observables this' = Map.empty"
proof -
  obtain c0 w1 where a: "(if cfg = JUndefined then new_object w else (cfg, w)) = (c0, w1)"
    by (cases "if cfg = JUndefined then new_object w else (cfg, w)") auto
  obtain e0 w2 where b: "new_object w1 = (e0, w2)"
    by (cases "new_object w1") auto
  obtain c this2 w3 where m: "Config_merge L c0 None (this\<lparr>config := e0\<rparr>) w2 = (c, this2, w3)"
    by (cases "Config_merge L c0 None (this\<lparr>config := e0\<rparr>) w2") auto
  from assms a b m show ?thesis
    by (cases c) (auto simp: Config_initializeConfig_def new_Observable_def)
qed

lemma set_override_discards_key_observables:
  assumes "Config_set L opts this w = (Return (), this', w')"
    and "set_value opts \<noteq> JNull" "set_value opts \<noteq> JUndefined"
    and "set_override opts"
  shows "observables this' = Map.empty"
proof -
  obtain c1 this1 w1 where i: "Config_initializeConfig L JUndefined this w = (c1, this1, w1)"
    by (cases "Config_initializeConfig L JUndefined this w") auto
  from assms i have c1: "c1 = Return ()"
    by (cases c1) (simp_all add: Config_set_def)
  obtain p w2 where sv: "setValue_of L (set_key opts) (set_value opts) w1 = (p, w2)"
    by (cases "setValue_of L (set_key opts) (set_value opts) w1") auto
  obtain c2 this2 w3 where m: "Config_merge L p (set_onError opts) this1 w2 = (c2, this2, w3)"
    by (cases "Config_merge L p (set_onError opts) this1 w2") auto
  obtain c3 this3 w4 where r: "refresh_key_observable L (set_key opts) this2 w3 = (c3, this3, w4)"
    by (cases "refresh_key_observable L (set_key opts) this2 w3") auto
  obtain ob w5 where o: "Observable_set (config this3) (observable this3) w4 = (ob, w5)"
    by (cases "Observable_set (config this3) (observable this3) w4") auto
  have reset: "(if set_override opts then Config_initializeConfig L JUndefined this w
          else (Return (), this, w)) = (Return (), this1, w1)"
    using assms(4) i c1 by simp
  from assms(1-3) sv m have c2: "c2 = Return ()"
    by (cases c2) (simp_all add: Config_set_after_reset [OF assms(2,3) reset sv])
  from assms(1-3) sv m r o c2 have c3: "c3 = Return ()" and this': "this' = this3\<lparr>observable := ob\<rparr>"
    by (cases c3; simp add: Config_set_after_reset [OF assms(2,3) reset sv])+
  have e: "observables this2 = Map.empty"
    using Config_merge_observables(1) [OF m] Config_initializeConfig_fields i c1 by auto
  have "observables this3 = observables this2"
    using r e
    by (auto simp: refresh_key_observable_def observables_at_def
        split: option.splits if_splits)
  with e this' show ?thesis by simp
qed

text \<open>At a key that names a member of \<^verbatim>\<open>Object.prototype\<close>, a \<^verbatim>\<open>set\<close> whose merge returned
  throws a \<^verbatim>\<open>TypeError\<close> from line 121, with the merged state committed.\<close>

lemma set_at_inherited_key_throws:
  assumes "set_value opts \<noteq> JNull" "set_value opts \<noteq> JUndefined"
    and "(if set_override opts then Config_initializeConfig L JUndefined this w
          else (Return (), this, w)) = (Return (), this1, w1)"
    and "setValue_of L (set_key opts) (set_value opts) w1 = (p, w2)"
    and "Config_merge L p (set_onError opts) this1 w2 = (Return (), this2, w3)"
    and "truthy_key (set_key opts) = Some k"
    and "observables_at (observables this1) k = Inherited"
  shows "Config_set L opts this w = (Throw TypeError, this2, w3)"
  using assms Config_merge_observables(1) [OF assms(5)]
  by (simp add: Config_set_after_reset refresh_key_observable_def)

text \<open>
  Claim C10. A \<^verbatim>\<open>set\<close> whose value is \<^verbatim>\<open>null\<close> or omitted returns at once: the object and
  the runtime are what they were, so nothing is stored and no listener is called. Any
  other value, the falsy ones included, goes through \<^verbatim>\<open>_merge\<close>. Without a key, what is
  merged with the state is the value itself; with a key \<open>k\<close>, it is the object that
  \<^verbatim>\<open>_set({}, k, value)\<close> builds. When that merge validates, the validated value is the new
  state; the call then returns with the root Observable holding that value, except at a
  key that names a member of \<^verbatim>\<open>Object.prototype\<close>, where line 121 throws.
\<close>

theorem set_null_is_noop_other_values_merged:
  "(set_value opts = JNull \<or> set_value opts = JUndefined
      \<longrightarrow> Config_set L opts this w = (Return (), this, w))
   \<and> (set_value opts \<noteq> JNull \<and> set_value opts \<noteq> JUndefined
       \<and> (if set_override opts then Config_initializeConfig L JUndefined this w
            else (Return (), this, w)) = (Return (), this1, w1)
       \<and> schema this1 = Joi validate
       \<and> truthy_key (set_key opts) = None
       \<and> deepMerge_all L [config this1, set_value opts] (next_ref w1) = (merged, r1)
       \<and> validate merged \<lparr>abortEarly = Some False, allowUnknown = None\<rparr> r1 = ((None, v), r2)
      \<longrightarrow> fst (Config_set L opts this w) = Return ()
          \<and> config (fst (snd (Config_set L opts this w))) = v
          \<and> val (observable (fst (snd (Config_set L opts this w)))) = v)
   \<and> (set_value opts \<noteq> JNull \<and> set_value opts \<noteq> JUndefined
       \<and> (if set_override opts then Config_initializeConfig L JUndefined this w
            else (Return (), this, w)) = (Return (), this1, w1)
       \<and> schema this1 = Joi validate
       \<and> truthy_key (set_key opts) = Some k
       \<and> lodash_set L (JObj (next_ref w1) []) k (set_value opts) (Suc (next_ref w1)) = (wrapped, r0)
       \<and> deepMerge_all L [config this1, wrapped] r0 = (merged, r1)
       \<and> validate merged \<lparr>abortEarly = Some False, allowUnknown = None\<rparr> r1 = ((None, v), r2)
      \<longrightarrow> config (fst (snd (Config_set L opts this w))) = v
          \<and> (k \<notin> set Object_prototype_members
               \<longrightarrow> fst (Config_set L opts this w) = Return ()
                 \<and> val (observable (fst (snd (Config_set L opts this w)))) = v))"
proof (intro conjI impI)
  assume "set_value opts = JNull \<or> set_value opts = JUndefined"
  then show "Config_set L opts this w = (Return (), this, w)"
    by (auto simp: Config_set_def)
next
  assume a: "set_value opts \<noteq> JNull \<and> set_value opts \<noteq> JUndefined
       \<and> (if set_override opts then Config_initializeConfig L JUndefined this w
            else (Return (), this, w)) = (Return (), this1, w1)
       \<and> schema this1 = Joi validate
       \<and> truthy_key (set_key opts) = None
       \<and> deepMerge_all L [config this1, set_value opts] (next_ref w1) = (merged, r1)
       \<and> validate merged \<lparr>abortEarly = Some False, allowUnknown = None\<rparr> r1 = ((None, v), r2)"
  obtain c this' w' where res: "Config_set L opts this w = (c, this', w')"
    by (cases "Config_set L opts this w") auto
  from a have sv: "setValue_of L (set_key opts) (set_value opts) w1 = (set_value opts, w1)"
    by (simp add: setValue_of_def)
  from a have "\<exists>w3. Config_merge L (set_value opts) (set_onError opts) this1 w1
      = (Return (), this1\<lparr>config := v\<rparr>, w3)"
    by (simp add: Config_merge_valid)
  then obtain w3 where merge: "Config_merge L (set_value opts) (set_onError opts) this1 w1
      = (Return (), this1\<lparr>config := v\<rparr>, w3)" ..
  from a res merge sv have tail:
    "(case refresh_key_observable L (set_key opts) (this1\<lparr>config := v\<rparr>) w3 of
              (Throw e, this3, w4) \<Rightarrow> (Throw e, this3, w4)
            | (Return u, this3, w4) \<Rightarrow>
                (let (ob, w5) = Observable_set (config this3) (observable this3) w4
                 in (Return (), this3\<lparr>observable := ob\<rparr>, w5))) = (c, this', w')"
    by (simp add: Config_set_after_reset)
  have nokey: "\<forall>k. truthy_key (set_key opts) = Some k \<longrightarrow> k \<notin> set Object_prototype_members"
    using a by simp
  have cfg: "config this' = v"
    using set_tail_fields(1) [OF tail] by simp
  have "c = Return ()" "val (observable this') = v"
    using set_tail_returned [OF tail nokey] cfg by simp_all
  with cfg res show "fst (Config_set L opts this w) = Return ()"
    "config (fst (snd (Config_set L opts this w))) = v"
    "val (observable (fst (snd (Config_set L opts this w)))) = v" by simp_all
next
  assume a: "set_value opts \<noteq> JNull \<and> set_value opts \<noteq> JUndefined
       \<and> (if set_override opts then Config_initializeConfig L JUndefined this w
            else (Return (), this, w)) = (Return (), this1, w1)
       \<and> schema this1 = Joi validate
       \<and> truthy_key (set_key opts) = Some k
       \<and> lodash_set L (JObj (next_ref w1) []) k (set_value opts) (Suc (next_ref w1)) = (wrapped, r0)
       \<and> deepMerge_all L [config this1, wrapped] r0 = (merged, r1)
       \<and> validate merged \<lparr>abortEarly = Some False, allowUnknown = None\<rparr> r1 = ((None, v), r2)"
  obtain c this' w' where res: "Config_set L opts this w = (c, this', w')"
    by (cases "Config_set L opts this w") auto
  from a have sv: "setValue_of L (set_key opts) (set_value opts) w1
      = (wrapped, w1\<lparr>next_ref := r0\<rparr>)"
    by (simp add: setValue_of_def new_object_def)
  from a have "\<exists>w3. Config_merge L wrapped (set_onError opts) this1 (w1\<lparr>next_ref := r0\<rparr>)
      = (Return (), this1\<lparr>config := v\<rparr>, w3)"
    by (simp add: Config_merge_valid)
  then obtain w3 where merge: "Config_merge L wrapped (set_onError opts) this1 (w1\<lparr>next_ref := r0\<rparr>)
      = (Return (), this1\<lparr>config := v\<rparr>, w3)" ..
  from a res merge sv have tail:
    "(case refresh_key_observable L (set_key opts) (this1\<lparr>config := v\<rparr>) w3 of
              (Throw e, this3, w4) \<Rightarrow> (Throw e, this3, w4)
            | (Return u, this3, w4) \<Rightarrow>
                (let (ob, w5) = Observable_set (config this3) (observable this3) w4
                 in (Return (), this3\<lparr>observable := ob\<rparr>, w5))) = (c, this', w')"
    by (simp add: Config_set_after_reset)
  have cfg: "config this' = v"
    using set_tail_fields(1) [OF tail] by simp
  with res show "config (fst (snd (Config_set L opts this w))) = v" by simp
  assume k: "k \<notin> set Object_prototype_members"
  have nokey: "\<forall>j. truthy_key (set_key opts) = Some j \<longrightarrow> j \<notin> set Object_prototype_members"
    using a k by simp
  have "c = Return ()" "val (observable this') = v"
    using set_tail_returned [OF tail nokey] cfg by simp_all
  with res show "fst (Config_set L opts this w) = Return ()"
    "val (observable (fst (snd (Config_set L opts this w)))) = v" by simp_all
qed

text \<open>After the constructor and after a \<^verbatim>\<open>set\<close> that returns, the root Observable holds
  the state.\<close>

lemma Config_set_root_mirrors_state:
  assumes "Config_set L opts this w = (Return (), this', w')"
    and "set_value opts \<noteq> JNull" "set_value opts \<noteq> JUndefined"
  shows "val (observable this') = config this'"
proof -
  obtain c1 this1 w1 where
    i: "(if set_override opts then Config_initializeConfig L JUndefined this w
         else (Return (), this, w)) = (c1, this1, w1)"
    by (cases "if set_override opts then Config_initializeConfig L JUndefined this w
               else (Return (), this, w)") auto
  from assms i have c1: "c1 = Return ()"
    by (cases c1) (simp_all add: Config_set_def)
  obtain p w2 where sv: "setValue_of L (set_key opts) (set_value opts) w1 = (p, w2)"
    by (cases "setValue_of L (set_key opts) (set_value opts) w1") auto
  obtain c2 this2 w3 where m: "Config_merge L p (set_onError opts) this1 w2 = (c2, this2, w3)"
    by (cases "Config_merge L p (set_onError opts) this1 w2") auto
  note unfold = Config_set_after_reset [OF assms(2,3) i [unfolded c1] sv]
  from assms(1) m have c2: "c2 = Return ()"
    by (cases c2) (simp_all add: unfold)
  from assms(1) m c2 have
    "(case refresh_key_observable L (set_key opts) this2 w3 of
              (Throw e, this3, w4) \<Rightarrow> (Throw e, this3, w4)
            | (Return u, this3, w4) \<Rightarrow>
                (let (ob, w5) = Observable_set (config this3) (observable this3) w4
                 in (Return (), this3\<lparr>observable := ob\<rparr>, w5))) = (Return (), this', w')"
    by (simp add: unfold)
  then show ?thesis by (rule set_tail_root)
qed

lemma Config_constructor_root_mirrors_state:
  assumes "Config_constructor L s cfg w = (Return this, w')"
  shows "val (observable this) = config this \<and> listeners (observable this) = []
       \<and> observables this = Map.empty"
proof -
  obtain c0 w0 where a: "(if cfg = JUndefined then new_object w else (cfg, w)) = (c0, w0)"
    by (cases "if cfg = JUndefined then new_object w else (cfg, w)") auto
  obtain c this1 w1 where
    i: "Config_initializeConfig L c0 (uninitialised\<lparr>schema := s\<rparr>) w0 = (c, this1, w1)"
    by (cases "Config_initializeConfig L c0 (uninitialised\<lparr>schema := s\<rparr>) w0") auto
  from assms a i have "c = Return ()" "this1 = this"
    by (auto simp: Config_constructor_def split: if_splits completion.splits)
  with i Config_initializeConfig_fields show ?thesis by blast
qed


section \<open>The state and the validations\<close>

lemma last_value_where_append:
  "last_value_where P (xs @ ys) =
     (case last_value_where P ys of Some v \<Rightarrow> Some v | None \<Rightarrow> last_value_where P xs)"
  by (induction xs) (auto split: option.splits)

lemma validations_validated:
  "validations (validated m opts res r w) =
     validations w @ [\<lparr>v_candidate = m, v_options = opts, v_error = fst res, v_value = snd res\<rparr>]"
  by (simp add: validated_def)

text \<open>What \<^verbatim>\<open>_merge\<close> does to the state and to the record of validations: it leaves both
  the object and the last committed value as they were, or it commits the value of the
  validation it has just recorded.\<close>

lemma Config_merge_last_committed:
  assumes "Config_merge L nv h this w = (c, this', w')"
  shows "schema this' = schema this
       \<and> ((this' = this
            \<and> last_value_where committed (validations w') = last_value_where committed (validations w))
          \<or> last_value_where committed (validations w') = Some (config this'))
       \<and> (c = Return () \<and> h = None \<longrightarrow>
            Joi_isSchema (schema this)
            \<and> last_value_where committed (validations w') = Some (config this'))"
proof (cases "schema this")
  case (Joi validate)
  obtain merged r1 where m: "deepMerge_all L [config this, nv] (next_ref w) = (merged, r1)"
    by (cases "deepMerge_all L [config this, nv] (next_ref w)") auto
  obtain err v r2 where v: "validate merged \<lparr>abortEarly = Some False, allowUnknown = None\<rparr> r1 = ((err, v), r2)"
    by (cases "validate merged \<lparr>abortEarly = Some False, allowUnknown = None\<rparr> r1") auto
  obtain err2 fb r3 where f: "validate merged \<lparr>abortEarly = Some False, allowUnknown = Some True\<rparr> r2 = ((err2, fb), r3)"
    by (cases "validate merged \<lparr>abortEarly = Some False, allowUnknown = Some True\<rparr> r2") auto
  from assms Joi m v f show ?thesis
    by (auto simp: Config_merge_def Let_def validations_validated last_value_where_append
        committed_def split: option.splits if_splits)
next
  case Falsy
  with assms show ?thesis
    by (auto simp: Config_merge_def split: prod.splits)
next
  case NotJoi
  with assms show ?thesis
    by (auto simp: Config_merge_def split: prod.splits)
qed

lemma Config_merge_preserves:
  assumes "Config_merge L nv h this w = (c, this', w')" and "state_is_last_committed (this, w)"
  shows "state_is_last_committed (this', w')"
  using Config_merge_last_committed [OF assms(1)] assms(2)
  unfolding state_is_last_committed_def by auto

lemma Config_merge_establishes:
  assumes "Config_merge L nv None this w = (Return (), this', w')"
  shows "state_is_last_committed (this', w')"
  using Config_merge_last_committed [OF assms]
  unfolding state_is_last_committed_def by auto

lemma state_is_last_committed_fields:
  "state_is_last_committed (this, w) \<Longrightarrow> config this' = config this
     \<Longrightarrow> schema this' = schema this \<Longrightarrow> validations w' = validations w
     \<Longrightarrow> state_is_last_committed (this', w')"
  unfolding state_is_last_committed_def by simp

lemma Config_initializeConfig_establishes:
  assumes "Config_initializeConfig L cfg this w = (Return (), this', w')"
  shows "state_is_last_committed (this', w')"
proof -
  obtain c0 w1 where a: "(if cfg = JUndefined then new_object w else (cfg, w)) = (c0, w1)"
    by (cases "if cfg = JUndefined then new_object w else (cfg, w)") auto
  obtain e0 w2 where b: "new_object w1 = (e0, w2)"
    by (cases "new_object w1") auto
  obtain c this2 w3 where m: "Config_merge L c0 None (this\<lparr>config := e0\<rparr>) w2 = (c, this2, w3)"
    by (cases "Config_merge L c0 None (this\<lparr>config := e0\<rparr>) w2") auto
  from assms a b m have c: "c = Return ()"
    by (cases c) (simp_all add: Config_initializeConfig_def)
  from assms a b m c have f: "config this' = config this2" "schema this' = schema this2"
    "validations w' = validations w3"
    by (auto simp: Config_initializeConfig_def new_Observable_def)
  from Config_merge_establishes [OF m [unfolded c]] f show ?thesis
    by (rule state_is_last_committed_fields)
qed

lemma Config_constructor_establishes:
  assumes "Config_constructor L s cfg w = (Return this, w')"
  shows "state_is_last_committed (this, w')"
proof -
  obtain c0 w0 where a: "(if cfg = JUndefined then new_object w else (cfg, w)) = (c0, w0)"
    by (cases "if cfg = JUndefined then new_object w else (cfg, w)") auto
  obtain c this1 w1 where
    i: "Config_initializeConfig L c0 (uninitialised\<lparr>schema := s\<rparr>) w0 = (c, this1, w1)"
    by (cases "Config_initializeConfig L c0 (uninitialised\<lparr>schema := s\<rparr>) w0") auto
  from assms a i have "c = Return ()" "this1 = this" "w1 = w'"
    by (auto simp: Config_constructor_def split: if_splits completion.splits)
  with i Config_initializeConfig_establishes show ?thesis by blast
qed

text \<open>A \<^verbatim>\<open>set\<close> whose reset, if any, returned keeps the property, however it completes.\<close>

lemma Config_set_preserves:
  assumes "Config_set L opts this w = (c, this', w')"
    and "state_is_last_committed (this, w)"
    and "set_override opts \<Longrightarrow> set_value opts \<noteq> JNull \<Longrightarrow> set_value opts \<noteq> JUndefined
           \<Longrightarrow> fst (Config_initializeConfig L JUndefined this w) = Return ()"
  shows "state_is_last_committed (this', w')"
proof (cases "set_value opts = JNull \<or> set_value opts = JUndefined")
  case True
  with assms show ?thesis by (auto simp: Config_set_def)
next
  case False
  then have nn: "set_value opts \<noteq> JNull" "set_value opts \<noteq> JUndefined" by simp_all
  obtain c1 this1 w1 where
    i: "(if set_override opts then Config_initializeConfig L JUndefined this w
         else (Return (), this, w)) = (c1, this1, w1)"
    by (cases "if set_override opts then Config_initializeConfig L JUndefined this w
               else (Return (), this, w)") auto
  from i assms(3) [OF _ nn] have c1: "c1 = Return ()"
    by (auto split: if_splits)
  have inv1: "state_is_last_committed (this1, w1)"
    using i c1 assms(2) by (auto split: if_splits dest: Config_initializeConfig_establishes)
  obtain p w2 where sv: "setValue_of L (set_key opts) (set_value opts) w1 = (p, w2)"
    by (cases "setValue_of L (set_key opts) (set_value opts) w1") auto
  have inv2: "state_is_last_committed (this1, w2)"
    using inv1 validations_setValue_of [OF sv]
    by (auto intro: state_is_last_committed_fields)
  obtain c2 this2 w3 where m: "Config_merge L p (set_onError opts) this1 w2 = (c2, this2, w3)"
    by (cases "Config_merge L p (set_onError opts) this1 w2") auto
  have inv3: "state_is_last_committed (this2, w3)"
    using m inv2 by (rule Config_merge_preserves)
  note unfold = Config_set_after_reset [OF nn i [unfolded c1] sv]
  show ?thesis
  proof (cases c2)
    case (Throw e)
    with assms(1) m inv3 show ?thesis by (simp add: unfold)
  next
    case (Return u)
    with assms(1) m have tail:
      "(case refresh_key_observable L (set_key opts) this2 w3 of
              (Throw e, this3, w4) \<Rightarrow> (Throw e, this3, w4)
            | (Return u, this3, w4) \<Rightarrow>
                (let (ob, w5) = Observable_set (config this3) (observable this3) w4
                 in (Return (), this3\<lparr>observable := ob\<rparr>, w5))) = (c, this', w')"
      by (simp add: unfold)
    from inv3 set_tail_fields [OF tail] show ?thesis
      by (rule state_is_last_committed_fields)
  qed
qed

lemma Config_setSchema_returned_establishes:
  assumes "Config_setSchema L s cfg this w = (Return (), this', w')"
  shows "state_is_last_committed (this', w')"
  using assms
  by (auto simp: Config_setSchema_def Let_def new_object_def
      split: prod.splits completion.splits if_splits schema_val.splits option.splits
      dest: Config_merge_establishes)

lemma Config_setSchema_rejected_preserves:
  assumes "Config_setSchema L s cfg this w = (c, this', w')"
    and "setSchema_rejects s cfg this w"
    and "state_is_last_committed (this, w)"
  shows "state_is_last_committed (this', w')"
proof (cases s)
  case (Joi validate)
  obtain err v r1 where
    v: "validate (if cfg = JUndefined then config this else cfg)
          \<lparr>abortEarly = Some False, allowUnknown = None\<rparr> (next_ref w) = ((err, v), r1)"
    by (cases "validate (if cfg = JUndefined then config this else cfg)
          \<lparr>abortEarly = Some False, allowUnknown = None\<rparr> (next_ref w)") auto
  with assms(2) Joi have "err \<noteq> None"
    by (simp add: setSchema_rejects_def)
  with assms(1,3) Joi v show ?thesis
    by (auto simp: Config_setSchema_def Config_validateJoi_def state_is_last_committed_def
        validations_validated last_value_where_append committed_def)
next
  case Falsy
  with assms show ?thesis
    by (auto simp: Config_setSchema_def Config_validateJoi_def)
next
  case NotJoi
  with assms show ?thesis
    by (auto simp: Config_setSchema_def Config_validateJoi_def)
qed

lemma Config_subscribe_fields:
  assumes "Config_subscribe L sopts this w = (c, this', w')"
  shows "config this' = config this" "schema this' = schema this"
    "validations w' = validations w"
  using assms
  by (auto simp: Config_subscribe_def Let_def new_Observable_def
      split: option.splits prod.splits observables_entry.splits)

text \<open>
  Claim C1, amended. In every object that the constructor returned and that went through
  any sequence of \<^verbatim>\<open>set\<close>, \<^verbatim>\<open>setSchema\<close>, \<^verbatim>\<open>subscribe\<close> and unsubscribe calls, whether they
  returned or threw (a \<^verbatim>\<open>set\<close> with \<^verbatim>\<open>override\<close> whose reset throws and a \<^verbatim>\<open>setSchema\<close> that
  throws after its own validation passed apart), the schema is a Joi schema and the state
  is the value that the most recent committable validation returned: the most recent among
  the validations that reported no error and the \<^verbatim>\<open>allowUnknown\<close> revalidations, which
  \<^verbatim>\<open>_merge\<close> runs after the handler returned truthy and commits whether or not they report
  an error. A candidate that failed validation and was not approved by the handler is
  never the state, nor is a merged value that was not validated.
\<close>

theorem reachable_state_is_last_committed:
  assumes "reachable L cw"
  shows "state_is_last_committed cw"
  using assms
proof (induction rule: reachable.induct)
  case (constructed s cfg w this w')
  then show ?case by (rule Config_constructor_establishes)
next
  case (set_returned this w opts this' w')
  show ?case
  proof (rule Config_set_preserves [OF set_returned(2) set_returned.IH])
    assume o: "set_override opts"
      and nn: "set_value opts \<noteq> JNull" "set_value opts \<noteq> JUndefined"
    obtain c1 this1 w1 where i: "Config_initializeConfig L JUndefined this w = (c1, this1, w1)"
      by (cases "Config_initializeConfig L JUndefined this w") auto
    from set_returned(2) o nn i have "c1 = Return ()"
      by (cases c1) (simp_all add: Config_set_def)
    with i show "fst (Config_initializeConfig L JUndefined this w) = Return ()" by simp
  qed
next
  case (set_threw this w opts e this' w')
  then show ?case by (auto intro: Config_set_preserves)
next
  case (set_override_threw this w opts e this' w')
  then show ?case by (auto intro: Config_set_preserves)
next
  case (setSchema_returned this w s cfg this' w')
  then show ?case by (auto dest: Config_setSchema_returned_establishes)
next
  case (setSchema_rejected this w s cfg c this' w')
  then show ?case by (auto intro: Config_setSchema_rejected_preserves)
next
  case (subscribed this w sopts c this' w')
  then show ?case
    by (auto dest: Config_subscribe_fields intro: state_is_last_committed_fields)
next
  case (unsubscribed this w u)
  then show ?case
    by (auto simp: Config_call_unsubscriber_def intro: state_is_last_committed_fields)
next
  case (elsewhere this w w')
  then show ?case
    by (auto intro: state_is_last_committed_fields)
qed


section \<open>The operations on concrete inputs\<close>

text \<open>The definitions that running an operation on a concrete input unfolds.\<close>

lemmas run_defs =
  Config_constructor_def Config_initializeConfig_def Config_merge_def Config_set_def
  Config_setSchema_def Config_subscribe_def Config_get_def Config_validateJoi_def
  setValue_of_def refresh_key_observable_def new_object_def new_Observable_def
  Observable_set_def Observable_subscribe_def uninitialised_def std_libs_def
  validated_def observables_at_def Object_prototype_members_def
  deepmerge_all_def lodash_get_impl_def lodash_set_impl_def castPath_def
  Joi_object_def joi_unknown_errors_def
  runtime0_def runtime1_def schema_a_def config_a1_def

lemma constructor_config_a1:
  "Config_constructor std_libs schema_a (JObj 0 [(''a'', JNum 1)]) runtime0
     = (Return config_a1, runtime1)"
  by (simp add: run_defs)

lemma constructor_config_string_a:
  "Config_constructor std_libs schema_string_a (JObj 0 [(''a'', JStr ''s'')]) runtime0
     = (Return config_string_a, runtime_string_a)"
  by (simp add: run_defs schema_string_a_def config_string_a_def runtime_string_a_def)

lemma constructor_config_required_a1:
  "Config_constructor std_libs schema_required_a (JObj 0 [(''a'', JNum 1)]) runtime0
     = (Return config_required_a1, runtime1)"
  by (simp add: run_defs schema_required_a_def config_required_a1_def)

text \<open>With a required key, \<^verbatim>\<open>set\<close> with \<^verbatim>\<open>override\<close> throws from the reset, for any value:
  \<^verbatim>\<open>_initializeConfig\<close> validates the empty object. The state is left as that empty object,
  which no validation returned.\<close>

lemma set_override_throws_on_required_key:
  "fst set_override_required = Throw (Validation (ValidationError [''a is required'']))
   \<and> config (fst (snd set_override_required)) = JObj 17 []
   \<and> last_value_where committed (validations (snd (snd set_override_required)))
       = Some (JObj 14 [(''a'', JNum 1)])"
  by code_simp

text \<open>
  Claim C3 at the input it names: a listener is subscribed to the root Observable and
  \<^verbatim>\<open>set\<close> is called with \<^verbatim>\<open>override: true\<close>. The call succeeds and the state is the new value,
  but \<^verbatim>\<open>_initializeConfig\<close> has replaced the root Observable by one without listeners: the
  listener is not called. The same call without \<^verbatim>\<open>override\<close> calls it.
\<close>

theorem set_override_drops_root_listeners:
  "listeners (observable config_a1_root_listener) = [7]
   \<and> fst set_override_a2 = Return ()
   \<and> config (fst (snd set_override_a2)) = JObj 26 [(''a'', JNum 2)]
   \<and> val (observable (fst (snd set_override_a2))) = JObj 26 [(''a'', JNum 2)]
   \<and> listeners (observable (fst (snd set_override_a2))) = []
   \<and> calls (snd (snd set_override_a2)) = []
   \<and> calls (snd (snd set_patch_a2)) = [(7, JObj 19 [(''a'', JNum 2)])]"
  by code_simp

text \<open>
  Claim C5, as stated: \<^verbatim>\<open>set\<close> with \<^verbatim>\<open>override: true\<close>, a patch that fails validation and a
  handler that returns false. The call returns without throwing, and the state is the
  empty reset object, not the state before the call.
\<close>

theorem set_override_swallowed_error_resets_state:
  "config config_a1 = JObj 14 [(''a'', JNum 1)]
   \<and> fst set_override_rejected = Return ()
   \<and> config (fst (snd set_override_rejected)) = JObj 21 []"
  by code_simp

text \<open>
  Claim C6 at the input it names: a successful \<^verbatim>\<open>setSchema\<close> with new data. The state is
  the new data and the root Observable still holds the old state.
\<close>

theorem setSchema_leaves_root_observable_stale:
  "fst after_setSchema_b = Return ()
   \<and> config (fst (snd after_setSchema_b)) = JObj 21 [(''b'', JNum 2)]
   \<and> val (observable (fst (snd after_setSchema_b))) = JObj 14 [(''a'', JNum 1)]"
  by code_simp

text \<open>
  Claim C7, as stated: a listener is subscribed at the key \<^verbatim>\<open>a\<close> and \<^verbatim>\<open>set\<close> is called
  without a key, with a patch that changes the value at \<^verbatim>\<open>a\<close>. The value at \<^verbatim>\<open>a\<close> is 2, the
  per-key Observable still holds 1, and its listener is not called.
\<close>

theorem set_without_key_leaves_key_observable_stale:
  "observables config_a1_key_listener ''a'' = Some \<lparr>oid = 16, val = JNum 1, listeners = [7]\<rparr>
   \<and> fst set_a2_without_key = Return ()
   \<and> Config_get std_libs (Some ''a'') (fst (snd set_a2_without_key)) = JNum 2
   \<and> observables (fst (snd set_a2_without_key)) ''a''
       = Some \<lparr>oid = 16, val = JNum 1, listeners = [7]\<rparr>
   \<and> calls (snd (snd set_a2_without_key)) = []"
  by code_simp

text \<open>Claim C2 at a patch with two unknown keys: both errors are thrown together.\<close>

theorem set_invalid_patch_witness:
  "Joi_object [(''a'', JoiAny, False)]
      (JObj 18 [(''a'', JNum 1), (''x'', JNum 1), (''y'', JNum 2)])
      \<lparr>abortEarly = Some False, allowUnknown = None\<rparr> 19
     = ((Some (ValidationError [''x is not allowed'', ''y is not allowed'']),
         JObj 19 [(''a'', JNum 1), (''x'', JNum 1), (''y'', JNum 2)]), 20)
   \<and> Config_set std_libs set_xy config_a1 runtime1
     = (Throw (Validation (ValidationError [''x is not allowed'', ''y is not allowed''])),
        config_a1,
        validated (JObj 18 [(''a'', JNum 1), (''x'', JNum 1), (''y'', JNum 2)])
          \<lparr>abortEarly = Some False, allowUnknown = None\<rparr>
          (Some (ValidationError [''x is not allowed'', ''y is not allowed'']),
           JObj 19 [(''a'', JNum 1), (''x'', JNum 1), (''y'', JNum 2)])
          20 runtime1)"
proof -
  have h1: "schema config_a1 = Joi (Joi_object [(''a'', JoiAny, False)])"
    by (simp add: run_defs set_xy_def)
  have h2: "set_value set_xy \<noteq> JNull" and h3: "set_value set_xy \<noteq> JUndefined"
    and h4: "\<not> set_override set_xy" and h5: "set_onError set_xy = None"
    by (simp_all add: run_defs set_xy_def)
  have h6: "setValue_of std_libs (set_key set_xy) (set_value set_xy) runtime1
              = (JObj 1 [(''x'', JNum 1), (''y'', JNum 2)], runtime1)"
    by (simp add: run_defs set_xy_def)
  have h7: "deepMerge_all std_libs [config config_a1, JObj 1 [(''x'', JNum 1), (''y'', JNum 2)]]
              (next_ref runtime1)
              = (JObj 18 [(''a'', JNum 1), (''x'', JNum 1), (''y'', JNum 2)], 19)"
    by (simp add: run_defs set_xy_def)
  have h8: "Joi_object [(''a'', JoiAny, False)]
      (JObj 18 [(''a'', JNum 1), (''x'', JNum 1), (''y'', JNum 2)])
      \<lparr>abortEarly = Some False, allowUnknown = None\<rparr> 19
     = ((Some (ValidationError [''x is not allowed'', ''y is not allowed'']),
         JObj 19 [(''a'', JNum 1), (''x'', JNum 1), (''y'', JNum 2)]), 20)"
    by (simp add: run_defs set_xy_def)
  from h8 set_invalid_patch_throws_state_unchanged [OF h1 h2 h3 h4 h5 h6 h7 h8]
  show ?thesis by simp
qed

text \<open>Claim C5, amended, at a patch with an unknown key, for a handler that returns true
  and one that returns false, without and with \<^verbatim>\<open>override\<close>.\<close>

theorem set_onError_fallback_witness:
  "fst (Config_set std_libs (set_x True) config_a1 runtime1) = Return ()
   \<and> config (fst (snd (Config_set std_libs (set_x True) config_a1 runtime1)))
       = JObj 20 [(''a'', JNum 1), (''x'', JNum 1)]
   \<and> fst (Config_set std_libs (set_x False) config_a1 runtime1) = Return ()
   \<and> config (fst (snd (Config_set std_libs (set_x False) config_a1 runtime1)))
       = JObj 14 [(''a'', JNum 1)]
   \<and> fst (Config_set std_libs (set_x_override True) config_a1 runtime1) = Return ()
   \<and> config (fst (snd (Config_set std_libs (set_x_override True) config_a1 runtime1)))
       = JObj 27 [(''x'', JNum 1)]
   \<and> fst (Config_set std_libs (set_x_override False) config_a1 runtime1) = Return ()
   \<and> config (fst (snd (Config_set std_libs (set_x_override False) config_a1 runtime1)))
       = JObj 21 []"
proof -
  have h1: "schema config_a1 = Joi (Joi_object [(''a'', JoiAny, False)])"
    by (simp add: run_defs set_x_def)
  have h2: "set_value (set_x b) \<noteq> JNull" and h3: "set_value (set_x b) \<noteq> JUndefined"
    and h4: "(if set_override (set_x b)
              then Config_initializeConfig std_libs JUndefined config_a1 runtime1
              else (Return (), config_a1, runtime1)) = (Return (), config_a1, runtime1)"
    and h5: "set_onError (set_x b) = Some (\<lambda>error. b)"
    and h6: "setValue_of std_libs (set_key (set_x b)) (set_value (set_x b)) runtime1
              = (JObj 1 [(''x'', JNum 1)], runtime1)"
    and hk: "\<forall>k. truthy_key (set_key (set_x b)) = Some k \<longrightarrow> k \<notin> set Object_prototype_members"
    for b
    by (simp_all add: setValue_of_def set_x_def)
  have h7: "deepMerge_all std_libs [config config_a1, JObj 1 [(''x'', JNum 1)]] (next_ref runtime1)
              = (JObj 18 [(''a'', JNum 1), (''x'', JNum 1)], 19)"
    by (simp add: run_defs set_x_def)
  have h8: "Joi_object [(''a'', JoiAny, False)] (JObj 18 [(''a'', JNum 1), (''x'', JNum 1)])
      \<lparr>abortEarly = Some False, allowUnknown = None\<rparr> 19
     = ((Some (ValidationError [''x is not allowed'']),
         JObj 19 [(''a'', JNum 1), (''x'', JNum 1)]), 20)"
    by (simp add: run_defs set_x_def)
  have h9: "Joi_object [(''a'', JoiAny, False)] (JObj 18 [(''a'', JNum 1), (''x'', JNum 1)])
      \<lparr>abortEarly = Some False, allowUnknown = Some True\<rparr> 20
     = ((None, JObj 20 [(''a'', JNum 1), (''x'', JNum 1)]), 21)"
    by (simp add: run_defs set_x_def)
  have r: "fst reset_config_a1 = Return ()" "config (fst (snd reset_config_a1)) = JObj 21 []"
    "next_ref (snd (snd reset_config_a1)) = 23"
    by code_simp+
  have o1: "schema (fst (snd reset_config_a1)) = Joi (Joi_object [(''a'', JoiAny, False)])"
    by (simp add: reset_config_a1_def run_defs)
  have o2: "set_value (set_x_override b) \<noteq> JNull"
    and o3: "set_value (set_x_override b) \<noteq> JUndefined"
    and o5: "set_onError (set_x_override b) = Some (\<lambda>error. b)"
    and ok: "\<forall>k. truthy_key (set_key (set_x_override b)) = Some k
               \<longrightarrow> k \<notin> set Object_prototype_members" for b
    by (simp_all add: set_x_override_def)
  have o4: "(if set_override (set_x_override b)
              then Config_initializeConfig std_libs JUndefined config_a1 runtime1
              else (Return (), config_a1, runtime1))
            = (Return (), fst (snd reset_config_a1), snd (snd reset_config_a1))" for b
    using r(1) by (cases reset_config_a1) (simp add: reset_config_a1_def set_x_override_def)
  have o6: "setValue_of std_libs (set_key (set_x_override b)) (set_value (set_x_override b))
              (snd (snd reset_config_a1))
              = (JObj 1 [(''x'', JNum 1)], snd (snd reset_config_a1))" for b
    by (simp add: set_x_override_def setValue_of_def)
  have o7: "deepMerge_all std_libs [config (fst (snd reset_config_a1)), JObj 1 [(''x'', JNum 1)]]
              (next_ref (snd (snd reset_config_a1)))
              = (JObj 25 [(''x'', JNum 1)], 26)"
    unfolding r by (simp add: run_defs)
  have o8: "Joi_object [(''a'', JoiAny, False)] (JObj 25 [(''x'', JNum 1)])
      \<lparr>abortEarly = Some False, allowUnknown = None\<rparr> 26
     = ((Some (ValidationError [''x is not allowed'']), JObj 26 [(''x'', JNum 1)]), 27)"
    by (simp add: run_defs)
  have o9: "Joi_object [(''a'', JoiAny, False)] (JObj 25 [(''x'', JNum 1)])
      \<lparr>abortEarly = Some False, allowUnknown = Some True\<rparr> 27
     = ((None, JObj 27 [(''x'', JNum 1)]), 28)"
    by (simp add: run_defs)
  from set_onError_fallback [OF h1 h2 h3 h4 h5 h6 h7 h8 h9, of True] hk [of True]
  have a: "fst (Config_set std_libs (set_x True) config_a1 runtime1) = Return ()"
    "config (fst (snd (Config_set std_libs (set_x True) config_a1 runtime1)))
       = JObj 20 [(''a'', JNum 1), (''x'', JNum 1)]"
    by blast+
  from set_onError_fallback [OF h1 h2 h3 h4 h5 h6 h7 h8 h9, of False] hk [of False]
  have b: "fst (Config_set std_libs (set_x False) config_a1 runtime1) = Return ()"
    "config (fst (snd (Config_set std_libs (set_x False) config_a1 runtime1)))
       = config config_a1"
    by blast+
  from set_onError_fallback [OF o1 o2 o3 o4 o5 o6 o7 o8 o9, of True] ok [of True]
  have c: "fst (Config_set std_libs (set_x_override True) config_a1 runtime1) = Return ()"
    "config (fst (snd (Config_set std_libs (set_x_override True) config_a1 runtime1)))
       = JObj 27 [(''x'', JNum 1)]"
    by blast+
  from set_onError_fallback [OF o1 o2 o3 o4 o5 o6 o7 o8 o9, of False] ok [of False]
  have d: "fst (Config_set std_libs (set_x_override False) config_a1 runtime1) = Return ()"
    "config (fst (snd (Config_set std_libs (set_x_override False) config_a1 runtime1)))
       = config (fst (snd reset_config_a1))"
    by blast+
  from a b c d r(2) show ?thesis by (simp add: config_a1_def)
qed

text \<open>Claim C7, amended, at a \<^verbatim>\<open>set\<close> with the key \<^verbatim>\<open>a\<close>, where a listener is subscribed.\<close>

theorem set_with_key_witness:
  "observables config_a1_key_listener ''a'' = Some \<lparr>oid = 16, val = JNum 1, listeners = [7]\<rparr>
   \<and> fst set_a2_with_key = Return ()
   \<and> observables (fst (snd set_a2_with_key)) ''a'' = Some \<lparr>oid = 16, val = JNum 2, listeners = [7]\<rparr>
   \<and> Config_get std_libs (Some ''a'') (fst (snd set_a2_with_key)) = JNum 2"
proof -
  have r: "fst set_a2_with_key = Return ()"
    by code_simp
  have h1: "Config_set std_libs
       \<lparr>set_override = False, set_value = JNum 2, set_key = Some ''a'', set_onError = None\<rparr>
       config_a1_key_listener runtime2
     = (Return (), fst (snd set_a2_with_key), snd (snd set_a2_with_key))"
    using r by (cases set_a2_with_key) (simp add: set_a2_with_key_def)
  have h6: "observables config_a1_key_listener ''a''
      = Some \<lparr>oid = 16, val = JNum 1, listeners = [7]\<rparr>"
    by code_simp
  have g: "Config_get std_libs (Some ''a'') (fst (snd set_a2_with_key)) = JNum 2"
    by code_simp
  from set_with_key_refreshes_key_observable [OF h1 _ _ _ _ h6] g
  have "observables (fst (snd set_a2_with_key)) ''a''
      = Some \<lparr>oid = 16, val = JNum 2, listeners = [7]\<rparr>"
    by auto
  with r h6 g show ?thesis by simp
qed

text \<open>Claim C10 at the values \<^verbatim>\<open>null\<close>, \<^verbatim>\<open>0\<close>, \<^verbatim>\<open>false\<close> and \<^verbatim>\<open>''\<close>, without a key and at the key
  \<^verbatim>\<open>a\<close>: at the key, the falsy value is the new value at \<^verbatim>\<open>a\<close>.\<close>

theorem set_null_is_noop_witness:
  "Config_set std_libs (set_value_only JNull) config_a1 runtime1 = (Return (), config_a1, runtime1)
   \<and> Config_set std_libs (set_value_at_a JNull) config_a1 runtime1 = (Return (), config_a1, runtime1)
   \<and> config (fst (snd (Config_set std_libs (set_value_only (JNum 0)) config_a1 runtime1)))
       = JObj 19 [(''a'', JNum 1)]
   \<and> config (fst (snd (Config_set std_libs (set_value_only (JBool False)) config_a1 runtime1)))
       = JObj 19 [(''a'', JNum 1)]
   \<and> config (fst (snd (Config_set std_libs (set_value_only (JStr '''')) config_a1 runtime1)))
       = JObj 19 [(''a'', JNum 1)]
   \<and> fst (Config_set std_libs (set_value_at_a (JNum 0)) config_a1 runtime1) = Return ()
   \<and> config (fst (snd (Config_set std_libs (set_value_at_a (JNum 0)) config_a1 runtime1)))
       = JObj 20 [(''a'', JNum 0)]
   \<and> config (fst (snd (Config_set std_libs (set_value_at_a (JBool False)) config_a1 runtime1)))
       = JObj 20 [(''a'', JBool False)]
   \<and> config (fst (snd (Config_set std_libs (set_value_at_a (JStr '''')) config_a1 runtime1)))
       = JObj 20 [(''a'', JStr '''')]"
proof -
  note t = set_null_is_noop_other_values_merged
  have n: "set_value (set_value_only JNull) = JNull \<or> set_value (set_value_only JNull) = JUndefined"
    "set_value (set_value_at_a JNull) = JNull \<or> set_value (set_value_at_a JNull) = JUndefined"
    by (simp_all add: set_value_only_def set_value_at_a_def)
  have m: "set_value (set_value_only v) \<noteq> JNull \<and> set_value (set_value_only v) \<noteq> JUndefined
       \<and> (if set_override (set_value_only v)
            then Config_initializeConfig std_libs JUndefined config_a1 runtime1
            else (Return (), config_a1, runtime1)) = (Return (), config_a1, runtime1)
       \<and> schema config_a1 = Joi (Joi_object [(''a'', JoiAny, False)])
       \<and> truthy_key (set_key (set_value_only v)) = None
       \<and> deepMerge_all std_libs [config config_a1, set_value (set_value_only v)] (next_ref runtime1)
           = (JObj 18 [(''a'', JNum 1)], 19)
       \<and> Joi_object [(''a'', JoiAny, False)] (JObj 18 [(''a'', JNum 1)])
            \<lparr>abortEarly = Some False, allowUnknown = None\<rparr> 19
           = ((None, JObj 19 [(''a'', JNum 1)]), 20)"
    if "v = JNum 0 \<or> v = JBool False \<or> v = JStr ''''" for v
    using that by (auto simp add: run_defs set_value_only_def)
  have k: "set_value (set_value_at_a v) \<noteq> JNull \<and> set_value (set_value_at_a v) \<noteq> JUndefined
       \<and> (if set_override (set_value_at_a v)
            then Config_initializeConfig std_libs JUndefined config_a1 runtime1
            else (Return (), config_a1, runtime1)) = (Return (), config_a1, runtime1)
       \<and> schema config_a1 = Joi (Joi_object [(''a'', JoiAny, False)])
       \<and> truthy_key (set_key (set_value_at_a v)) = Some ''a''
       \<and> lodash_set std_libs (JObj (next_ref runtime1) []) ''a'' (set_value (set_value_at_a v))
            (Suc (next_ref runtime1)) = (JObj 16 [(''a'', v)], 17)
       \<and> deepMerge_all std_libs [config config_a1, JObj 16 [(''a'', v)]] 17
           = (JObj 19 [(''a'', v)], 20)
       \<and> Joi_object [(''a'', JoiAny, False)] (JObj 19 [(''a'', v)])
            \<lparr>abortEarly = Some False, allowUnknown = None\<rparr> 20
           = ((None, JObj 20 [(''a'', v)]), 21)"
    if "v = JNum 0 \<or> v = JBool False \<or> v = JStr ''''" for v
    using that by (auto simp add: run_defs set_value_at_a_def)
  have nm: "''a'' \<notin> set Object_prototype_members"
    by (simp add: Object_prototype_members_def)
  from t [where opts="set_value_only JNull" and L=std_libs and this=config_a1 and w=runtime1
      and ?this1.0=config_a1 and ?w1.0=runtime1 and validate="Joi_object [(''a'', JoiAny, False)]"] n(1)
  have a: "Config_set std_libs (set_value_only JNull) config_a1 runtime1 = (Return (), config_a1, runtime1)"
    by blast
  from t [where opts="set_value_at_a JNull" and L=std_libs and this=config_a1 and w=runtime1
      and ?this1.0=config_a1 and ?w1.0=runtime1 and validate="Joi_object [(''a'', JoiAny, False)]"] n(2)
  have a': "Config_set std_libs (set_value_at_a JNull) config_a1 runtime1 = (Return (), config_a1, runtime1)"
    by blast
  from t [where opts="set_value_only (JNum 0)" and L=std_libs and this=config_a1 and w=runtime1
      and ?this1.0=config_a1 and ?w1.0=runtime1 and validate="Joi_object [(''a'', JoiAny, False)]"] m [of "JNum 0"]
  have b: "config (fst (snd (Config_set std_libs (set_value_only (JNum 0)) config_a1 runtime1)))
       = JObj 19 [(''a'', JNum 1)]"
    by blast
  from t [where opts="set_value_only (JBool False)" and L=std_libs and this=config_a1 and w=runtime1
      and ?this1.0=config_a1 and ?w1.0=runtime1 and validate="Joi_object [(''a'', JoiAny, False)]"] m [of "JBool False"]
  have c: "config (fst (snd (Config_set std_libs (set_value_only (JBool False)) config_a1 runtime1)))
       = JObj 19 [(''a'', JNum 1)]"
    by blast
  from t [where opts="set_value_only (JStr '''')" and L=std_libs and this=config_a1 and w=runtime1
      and ?this1.0=config_a1 and ?w1.0=runtime1 and validate="Joi_object [(''a'', JoiAny, False)]"] m [of "JStr ''''"]
  have d: "config (fst (snd (Config_set std_libs (set_value_only (JStr '''')) config_a1 runtime1)))
       = JObj 19 [(''a'', JNum 1)]"
    by blast
  from t [where opts="set_value_at_a (JNum 0)" and L=std_libs and this=config_a1 and w=runtime1
      and ?this1.0=config_a1 and ?w1.0=runtime1 and validate="Joi_object [(''a'', JoiAny, False)]"] k [of "JNum 0"] nm
  have e: "fst (Config_set std_libs (set_value_at_a (JNum 0)) config_a1 runtime1) = Return ()"
    "config (fst (snd (Config_set std_libs (set_value_at_a (JNum 0)) config_a1 runtime1)))
       = JObj 20 [(''a'', JNum 0)]"
    by blast+
  from t [where opts="set_value_at_a (JBool False)" and L=std_libs and this=config_a1 and w=runtime1
      and ?this1.0=config_a1 and ?w1.0=runtime1 and validate="Joi_object [(''a'', JoiAny, False)]"] k [of "JBool False"]
  have f: "config (fst (snd (Config_set std_libs (set_value_at_a (JBool False)) config_a1 runtime1)))
       = JObj 20 [(''a'', JBool False)]"
    by blast
  from t [where opts="set_value_at_a (JStr '''')" and L=std_libs and this=config_a1 and w=runtime1
      and ?this1.0=config_a1 and ?w1.0=runtime1 and validate="Joi_object [(''a'', JoiAny, False)]"] k [of "JStr ''''"]
  have g: "config (fst (snd (Config_set std_libs (set_value_at_a (JStr '''')) config_a1 runtime1)))
       = JObj 20 [(''a'', JStr '''')]"
    by blast
  from a a' b c d e f g show ?thesis by simp
qed

lemma config_set_number_accepted:
  "fst set_number_accepted = Return ()"
  "config (fst (snd set_number_accepted)) = JObj 20 [(''a'', JNum 5)]"
  by code_simp+

text \<open>
  Claim C1, as stated: the schema wants a string at \<^verbatim>\<open>a\<close>, the patch puts a number there
  and the handler returns true. The \<^verbatim>\<open>allowUnknown\<close> revalidation reports the error as well
  and its value is stored all the same: the state is a value that passed no validation,
  and the last value that passed one is the state before the call.
\<close>

theorem accepted_fallback_state_never_passed_validation:
  "state_is_last_passed (config_string_a, runtime_string_a)
   \<and> fst set_number_accepted = Return ()
   \<and> config (fst (snd set_number_accepted)) = JObj 20 [(''a'', JNum 5)]
   \<and> map (\<lambda>e. (allowUnknown (v_options e), v_error e))
         (validations (snd (snd set_number_accepted)))
       = [(None, None),
          (None, Some (ValidationError [''a must be a string''])),
          (Some True, Some (ValidationError [''a must be a string'']))]
   \<and> last_value_where passed (validations (snd (snd set_number_accepted)))
       = Some (JObj 14 [(''a'', JStr ''s'')])
   \<and> \<not> state_is_last_passed (snd set_number_accepted)"
  by code_simp

text \<open>Claim C1, amended, at the same calls: the state is the value of the revalidation.\<close>

theorem reachable_state_witness:
  "reachable std_libs (snd set_number_accepted)
   \<and> state_is_last_committed (snd set_number_accepted)
   \<and> last_value_where committed (validations (snd (snd set_number_accepted)))
       = Some (JObj 20 [(''a'', JNum 5)])"
proof -
  have "reachable std_libs (config_string_a, runtime_string_a)"
    using constructor_config_string_a by (rule reachable.constructed)
  moreover have "Config_set std_libs
       \<lparr>set_override = False, set_value = JObj 1 [(''a'', JNum 5)], set_key = None,
        set_onError = Some (\<lambda>error. True)\<rparr>
       config_string_a runtime_string_a
      = (Return (), fst (snd set_number_accepted), snd (snd set_number_accepted))"
    using config_set_number_accepted(1)
    by (cases set_number_accepted) (simp add: set_number_accepted_def)
  ultimately have "reachable std_libs (fst (snd set_number_accepted), snd (snd set_number_accepted))"
    by (rule reachable.set_returned)
  then have r: "reachable std_libs (snd set_number_accepted)" by simp
  from r reachable_state_is_last_committed [OF r] config_set_number_accepted(2)
  show ?thesis by (simp add: state_is_last_committed_def)
qed


end
